theory Spec2Isabelle
  imports Complex_Main "HOL-Library.AList"
begin

section \<open>Values and dictionaries\<close>

text \<open>
  The gateway handles JSON-shaped Python values (\<open>Dict[str, Any]\<close>, \<open>List[Dict[str, Any]]\<close>).
  A timestamp is the number of microseconds that \<open>datetime.utcnow()\<close> read; every reading
  of the clock is an input of the model. \<open>PTime t\<close> stands for the string that
  \<open>t.isoformat()\<close> returns.
\<close>

type_synonym datetime = nat

datatype pyval =
    PNone
  | PBool bool
  | PInt int
  | PFloat rat
  | PStr string
  | PTime datetime
  | PList "pyval list"
  | PDict "(string \<times> pyval) list"

text \<open>
  A Python \<open>dict\<close> keeps its keys in insertion order: assigning to a key that is present
  replaces the value where it stands, assigning to a new key appends it. That is
  \<^const>\<open>AList.update\<close>; \<open>d.get(k)\<close> is \<^const>\<open>map_of\<close>, \<open>del d[k]\<close> is
  \<^const>\<open>AList.delete\<close>.
\<close>

type_synonym pydict = "(string \<times> pyval) list"

text \<open>\<open>{**base, **extra}\<close>: the keys of \<open>extra\<close> are assigned one by one over \<open>base\<close>.\<close>

definition dict_merge :: "pydict \<Rightarrow> pydict \<Rightarrow> pydict" where
  "dict_merge base extra = foldl (\<lambda>d (k, v). AList.update k v d) base extra"

text \<open>Truthiness of an \<open>Optional[str]\<close>: \<open>None\<close> and the empty string are false.\<close>

fun truthy :: "string option \<Rightarrow> bool" where
  "truthy None = False"
| "truthy (Some s) = (s \<noteq> [])"

text \<open>\<open>xs or []\<close> for an optional list (or dict): \<open>None\<close> becomes the empty one.\<close>

fun or_empty :: "'a list option \<Rightarrow> 'a list" where
  "or_empty None = []"
| "or_empty (Some xs) = xs"

section \<open>registry.py\<close>

subsection \<open>MCPServerInfo\<close>

record MCPServerInfo =
  name :: string
  version :: string
  description :: string
  endpoint :: string
  transport :: string
  tools :: "pydict list"
  resources :: "pydict list"
  metadata :: pydict
  status :: string
  last_health_check :: datetime
  registered_at :: datetime

text \<open>
  \<open>MCPServerInfo.__init__\<close>. The two timestamps are two consecutive readings of the
  clock, \<open>t_hc\<close> and \<open>t_reg\<close>.
\<close>

definition MCPServerInfo_init ::
  "string \<Rightarrow> string \<Rightarrow> string \<Rightarrow> string \<Rightarrow> string \<Rightarrow> pydict list option \<Rightarrow>
   pydict list option \<Rightarrow> pydict option \<Rightarrow> datetime \<Rightarrow> datetime \<Rightarrow> MCPServerInfo" where
  "MCPServerInfo_init nm ver descr ep tr tls res md t_hc t_reg =
     \<lparr> name = nm, version = ver, description = descr, endpoint = ep, transport = tr,
       tools = or_empty tls, resources = or_empty res, metadata = or_empty md,
       status = ''available'', last_health_check = t_hc, registered_at = t_reg \<rparr>"

definition to_dict :: "MCPServerInfo \<Rightarrow> pydict" where
  "to_dict s =
     [(''name'', PStr (name s)),
      (''version'', PStr (version s)),
      (''description'', PStr (description s)),
      (''endpoint'', PStr (endpoint s)),
      (''transport'', PStr (transport s)),
      (''tools'', PList (map PDict (tools s))),
      (''resources'', PList (map PDict (resources s))),
      (''metadata'', PDict (metadata s)),
      (''status'', PStr (status s)),
      (''last_health_check'', PTime (last_health_check s)),
      (''registered_at'', PTime (registered_at s))]"

subsection \<open>MCPRegistry\<close>

text \<open>
  The registry holds the table \<open>servers\<close> (a \<open>dict\<close>, in insertion order) and the cached
  Redis client \<open>_redis\<close> (here the URL it was opened on).
\<close>

record MCPRegistry =
  servers :: "(string \<times> MCPServerInfo) list"
  redis :: "string option"

definition MCPRegistry_init :: MCPRegistry where
  "MCPRegistry_init = \<lparr> servers = [], redis = None \<rparr>"

text \<open>
  What the process environment and the Redis server do during one call of the registry:
  the value of \<open>REDIS_URL\<close>, whether \<open>from_url\<close> and \<open>ping\<close> go through, and whether the
  command sent afterwards (\<open>hset\<close>, \<open>hdel\<close>) goes through.
\<close>

record redis_env =
  REDIS_URL :: "string option"
  connect_ok :: bool
  command_ok :: bool

datatype exn =
    ValueError pyval
  | HTTPStatusError nat
  | ConnectError
  | TimeoutException
  | ClientError
  | JSONDecodeError
  | TypeError
  | AttributeError
  | KeyError
  | RedisError

text \<open>\<open>_get_redis\<close>: a failure to connect is swallowed, the registry stays in memory.\<close>

definition get_redis :: "MCPRegistry \<Rightarrow> redis_env \<Rightarrow> string option \<times> MCPRegistry" where
  "get_redis reg env =
     (case redis reg of
        Some c \<Rightarrow> (Some c, reg)
      | None \<Rightarrow>
          (if truthy (REDIS_URL env)
           then (if connect_ok env
                 then (REDIS_URL env, reg\<lparr>redis := REDIS_URL env\<rparr>)
                 else (None, reg\<lparr>redis := None\<rparr>))
           else (None, reg)))"

text \<open>
  \<open>register\<close>: the table is written first; the mirror to Redis follows, and an exception
  of \<open>hset\<close> leaves \<open>register\<close> with the table already written.
\<close>

definition register ::
  "MCPRegistry \<Rightarrow> redis_env \<Rightarrow> string \<Rightarrow> string \<Rightarrow> string \<Rightarrow> string \<Rightarrow> string \<Rightarrow>
   pydict list option \<Rightarrow> pydict list option \<Rightarrow> pydict option \<Rightarrow> datetime \<Rightarrow> datetime \<Rightarrow>
   (exn + MCPServerInfo) \<times> MCPRegistry" where
  "register reg env nm ver descr ep tr tls res md t_hc t_reg =
     (let server = MCPServerInfo_init nm ver descr ep tr tls res md t_hc t_reg;
          reg1 = reg\<lparr>servers := AList.update nm server (servers reg)\<rparr>;
          (redis_client, reg2) = get_redis reg1 env
      in case redis_client of
           None \<Rightarrow> (Inr server, reg2)
         | Some c \<Rightarrow> (if command_ok env then (Inr server, reg2) else (Inl RedisError, reg2)))"

definition unregister :: "MCPRegistry \<Rightarrow> redis_env \<Rightarrow> string \<Rightarrow> (exn + bool) \<times> MCPRegistry" where
  "unregister reg env nm =
     (if nm \<in> fst ` set (servers reg)
      then (let reg1 = reg\<lparr>servers := AList.delete nm (servers reg)\<rparr>;
                (redis_client, reg2) = get_redis reg1 env
            in case redis_client of
                 None \<Rightarrow> (Inr True, reg2)
               | Some c \<Rightarrow> (if command_ok env then (Inr True, reg2) else (Inl RedisError, reg2)))
      else (Inr False, reg))"

definition get_server :: "MCPRegistry \<Rightarrow> string \<Rightarrow> pydict option" where
  "get_server reg nm = map_option to_dict (map_of (servers reg) nm)"

definition list_servers :: "MCPRegistry \<Rightarrow> pydict list" where
  "list_servers reg = map (\<lambda>server. to_dict server) (map snd (servers reg))"

definition annotate_tool :: "MCPServerInfo \<Rightarrow> pydict \<Rightarrow> pydict" where
  "annotate_tool server tool =
     dict_merge [(''server'', PStr (name server)), (''server_status'', PStr (status server))] tool"

definition list_all_tools :: "MCPRegistry \<Rightarrow> pydict list" where
  "list_all_tools reg =
     concat (map (\<lambda>server. map (annotate_tool server) (tools server)) (map snd (servers reg)))"

text \<open>The inner loop of \<open>find_tool_server\<close>: does some tool carry \<open>"name": tool_name\<close>?\<close>

fun has_tool :: "pydict list \<Rightarrow> string \<Rightarrow> bool" where
  "has_tool [] tool_name = False"
| "has_tool (tool # rest) tool_name =
     (if map_of tool ''name'' = Some (PStr tool_name) then True else has_tool rest tool_name)"

fun find_in_servers :: "MCPServerInfo list \<Rightarrow> string \<Rightarrow> string option" where
  "find_in_servers [] tool_name = None"
| "find_in_servers (server # rest) tool_name =
     (if has_tool (tools server) tool_name then Some (name server)
      else find_in_servers rest tool_name)"

definition find_tool_server :: "MCPRegistry \<Rightarrow> string \<Rightarrow> string option" where
  "find_tool_server reg tool_name = find_in_servers (map snd (servers reg)) tool_name"

text \<open>\<open>update_server_status\<close>; \<open>t\<close> is the clock reading it takes.\<close>

definition update_server_status ::
  "MCPRegistry \<Rightarrow> string \<Rightarrow> string \<Rightarrow> datetime \<Rightarrow> bool \<times> MCPRegistry" where
  "update_server_status reg nm st t =
     (case map_of (servers reg) nm of
        Some server \<Rightarrow>
          (True, reg\<lparr>servers :=
             AList.update nm (server\<lparr>status := st, last_health_check := t\<rparr>) (servers reg)\<rparr>)
      | None \<Rightarrow> (False, reg))"

text \<open>
  The table of a running registry is a \<open>dict\<close> (no key twice) that \<open>register\<close> alone
  fills, under the name of the record it stores.
\<close>

definition registry_ok :: "MCPRegistry \<Rightarrow> bool" where
  "registry_ok reg \<longleftrightarrow>
     distinct (map fst (servers reg)) \<and> list_all (\<lambda>(k, s). name s = k) (servers reg)"

section \<open>router.py\<close>

subsection \<open>The HTTP client\<close>

text \<open>
  The router talks to a provider through \<open>httpx\<close>. What the provider and the network do
  with one request is an input of the model: a response (its status code, its body parsed
  as JSON, or \<open>None\<close> when the body is no JSON, and the float that
  \<open>response.elapsed.total_seconds() * 1000\<close> evaluates to), a refused or
  unreachable connection (\<open>httpx.ConnectError\<close>), a timeout (\<open>httpx.TimeoutException\<close>)
  or another failure of the client.
\<close>

record http_response =
  status_code :: nat
  json_body :: "pyval option"
  elapsed_ms :: rat

datatype http_outcome =
    Replied http_response
  | ConnectFailed
  | TimedOut
  | ClientFailed

record http_request =
  http_method :: string
  url :: string
  json_payload :: "pyval option"

text \<open>
  What one call of the router or of the gateway reads from outside: the outcome of the
  HTTP request it may send, the clock (\<open>now\<close> in \<open>update_server_status\<close>), the values of
  \<open>uuid4()\<close>, the text that \<open>str(e)\<close> gives an exception whose text Python or \<open>httpx\<close>
  composes, and the float that \<open>(datetime.utcnow() - start_time).total_seconds() * 1000\<close>
  evaluates to at the end of a gateway call (\<open>elapsed\<close>; floating-point arithmetic is
  not computed here).
\<close>

record io =
  reply :: http_outcome
  now :: datetime
  render :: "exn \<Rightarrow> string"
  uuid :: string
  batch_uuid :: string
  elapsed :: rat

text \<open>\<open>str(e)\<close>: an exception raised with a string as its one argument prints that string.\<close>

definition str_exn :: "(exn \<Rightarrow> string) \<Rightarrow> exn \<Rightarrow> string" where
  "str_exn rnd e = (case e of ValueError (PStr m) \<Rightarrow> m | _ \<Rightarrow> rnd e)"

text \<open>\<open>await client.post(...)\<close> and \<open>await client.get(...)\<close>: the response, or the exception.\<close>

fun http_result :: "http_outcome \<Rightarrow> exn + http_response" where
  "http_result (Replied r) = Inr r"
| "http_result ConnectFailed = Inl ConnectError"
| "http_result TimedOut = Inl TimeoutException"
| "http_result ClientFailed = Inl ClientError"

text \<open>\<open>response.raise_for_status()\<close> of \<open>httpx\<close>: \<open>HTTPStatusError\<close> unless the status is 2xx.\<close>

definition raise_for_status :: "http_response \<Rightarrow> exn + unit" where
  "raise_for_status r =
     (if 200 \<le> status_code r \<and> status_code r \<le> 299 then Inr ()
      else Inl (HTTPStatusError (status_code r)))"

subsection \<open>Python's operators on a parsed body\<close>

fun py_substring :: "string \<Rightarrow> string \<Rightarrow> bool" where
  "py_substring sub [] = (sub = [])"
| "py_substring sub (c # cs) = (take (length sub) (c # cs) = sub \<or> py_substring sub cs)"

text \<open>\<open>key in v\<close>\<close>

fun py_contains :: "string \<Rightarrow> pyval \<Rightarrow> exn + bool" where
  "py_contains k (PDict d) = Inr (map_of d k \<noteq> None)"
| "py_contains k (PList xs) = Inr (PStr k \<in> set xs)"
| "py_contains k (PStr s) = Inr (py_substring k s)"
| "py_contains k v = Inl TypeError"

text \<open>\<open>v[key]\<close>\<close>

fun py_getitem :: "pyval \<Rightarrow> string \<Rightarrow> exn + pyval" where
  "py_getitem (PDict d) k = (case map_of d k of Some v \<Rightarrow> Inr v | None \<Rightarrow> Inl KeyError)"
| "py_getitem v k = Inl TypeError"

text \<open>\<open>v.get(key, default)\<close>\<close>

fun py_get :: "pyval \<Rightarrow> string \<Rightarrow> pyval \<Rightarrow> exn + pyval" where
  "py_get (PDict d) k dflt = Inr (case map_of d k of Some v \<Rightarrow> v | None \<Rightarrow> dflt)"
| "py_get v k dflt = Inl AttributeError"

text \<open>\<open>x or default\<close> for an optional string.\<close>

fun or_default :: "string option \<Rightarrow> string \<Rightarrow> string" where
  "or_default None d = d"
| "or_default (Some s) d = (if s = [] then d else s)"

text \<open>
  The lines after \<open>raise_for_status()\<close> in \<open>call_tool\<close> and \<open>read_resource\<close>: parse the
  body, raise \<open>ValueError\<close> on an \<open>error\<close> member, else return \<open>result.content\<close>
  (\<open>result.contents\<close> for a resource).
\<close>

definition unwrap_envelope :: "string \<Rightarrow> http_response \<Rightarrow> exn + pyval" where
  "unwrap_envelope key r =
     (case json_body r of
        None \<Rightarrow> Inl JSONDecodeError
      | Some result \<Rightarrow>
          (case py_contains ''error'' result of
             Inl e \<Rightarrow> Inl e
           | Inr True \<Rightarrow>
               (case py_getitem result ''error'' of
                  Inl e \<Rightarrow> Inl e
                | Inr err \<Rightarrow>
                    (case py_get err ''message'' (PStr ''Unknown error'') of
                       Inl e \<Rightarrow> Inl e
                     | Inr msg \<Rightarrow> Inl (ValueError msg)))
           | Inr False \<Rightarrow>
               (case py_get result ''result'' (PDict []) of
                  Inl e \<Rightarrow> Inl e
                | Inr inner \<Rightarrow> py_get inner key (PList []))))"

subsection \<open>MCPRouter.call_tool\<close>

definition tool_call_request :: "string \<Rightarrow> pydict \<Rightarrow> string option \<Rightarrow> string option \<Rightarrow> pyval" where
  "tool_call_request tool_name arguments session_id trace_id =
     PDict [(''jsonrpc'', PStr ''2.0''),
            (''id'', PStr (or_default trace_id ''1'')),
            (''method'', PStr ''tools/call''),
            (''params'', PDict
               ([(''name'', PStr tool_name), (''arguments'', PDict arguments)] @
                (if truthy session_id
                 then [(''_meta'', PDict [(''session_id'', PStr (or_default session_id []))])]
                 else [])))]"

text \<open>
  \<open>call_tool\<close> up to its one suspension, the \<open>await client.post(...)\<close>: the lookup, the
  availability guard, the request, the transport check. It reads the registry and writes
  nothing. \<open>Inl\<close> is the exception raised before any request; \<open>Inr\<close> is the request sent.
\<close>

definition call_tool_begin ::
  "MCPRegistry \<Rightarrow> string \<Rightarrow> string \<Rightarrow> pydict \<Rightarrow> string option \<Rightarrow> string option \<Rightarrow>
   exn + http_request" where
  "call_tool_begin reg server_name tool_name arguments session_id trace_id =
     (case map_of (servers reg) server_name of
        None \<Rightarrow> Inl (ValueError (PStr (''Server not found: '' @ server_name)))
      | Some srv \<Rightarrow>
          (if status srv \<noteq> ''available''
           then Inl (ValueError (PStr (''Server '' @ server_name @
                  '' is not available (status: '' @ status srv @ '')'')))
           else if transport srv = ''http''
           then Inr \<lparr> http_method = ''POST'', url = endpoint srv @ ''/mcp'',
                      json_payload = Some (tool_call_request tool_name arguments session_id trace_id) \<rparr>
           else Inl (ValueError (PStr (''Unsupported transport: '' @ transport srv)))))"

text \<open>The rest of the \<open>try\<close> block, once the request has its outcome.\<close>

definition call_tool_try :: "http_outcome \<Rightarrow> exn + pyval" where
  "call_tool_try outcome =
     (case http_result outcome of
        Inl e \<Rightarrow> Inl e
      | Inr response \<Rightarrow>
          (case raise_for_status response of
             Inl e \<Rightarrow> Inl e
           | Inr _ \<Rightarrow> unwrap_envelope ''content'' response))"

text \<open>The \<open>except\<close> clauses of \<open>call_tool\<close>, in their order; each raises the exception again.\<close>

definition call_tool_except ::
  "MCPRegistry \<Rightarrow> string \<Rightarrow> exn \<Rightarrow> datetime \<Rightarrow> MCPRegistry" where
  "call_tool_except reg server_name e t =
     (case e of
        HTTPStatusError c \<Rightarrow> snd (update_server_status reg server_name ''degraded'' t)
      | ConnectError \<Rightarrow> snd (update_server_status reg server_name ''unavailable'' t)
      | _ \<Rightarrow> reg)"

definition call_tool_finish ::
  "MCPRegistry \<Rightarrow> string \<Rightarrow> io \<Rightarrow> (exn + pyval) \<times> MCPRegistry" where
  "call_tool_finish reg server_name w =
     (case call_tool_try (reply w) of
        Inl e \<Rightarrow> (Inl e, call_tool_except reg server_name e (now w))
      | Inr v \<Rightarrow> (Inr v, reg))"

text \<open>
  \<open>call_tool\<close>: the result or the exception, the registry afterwards, and the HTTP requests
  it sent.
\<close>

definition call_tool ::
  "MCPRegistry \<Rightarrow> string \<Rightarrow> string \<Rightarrow> pydict \<Rightarrow> string option \<Rightarrow> string option \<Rightarrow> io \<Rightarrow>
   (exn + pyval) \<times> MCPRegistry \<times> http_request list" where
  "call_tool reg server_name tool_name arguments session_id trace_id w =
     (case call_tool_begin reg server_name tool_name arguments session_id trace_id of
        Inl e \<Rightarrow> (Inl e, reg, [])
      | Inr rq \<Rightarrow>
          (let (res, reg') = call_tool_finish reg server_name w in (res, reg', [rq])))"

subsection \<open>MCPRouter.read_resource\<close>

definition read_resource ::
  "MCPRegistry \<Rightarrow> string \<Rightarrow> string \<Rightarrow> string option \<Rightarrow> io \<Rightarrow>
   (exn + pyval) \<times> MCPRegistry \<times> http_request list" where
  "read_resource reg server_name uri session_id w =
     (case map_of (servers reg) server_name of
        None \<Rightarrow> (Inl (ValueError (PStr (''Server not found: '' @ server_name))), reg, [])
      | Some srv \<Rightarrow>
          (if transport srv = ''http''
           then (let rq = \<lparr> http_method = ''POST'', url = endpoint srv @ ''/mcp'',
                            json_payload = Some (PDict [(''jsonrpc'', PStr ''2.0''),
                              (''id'', PStr ''1''), (''method'', PStr ''resources/read''),
                              (''params'', PDict [(''uri'', PStr uri)])]) \<rparr>
                 in case http_result (reply w) of
                      Inl e \<Rightarrow> (Inl e, reg, [rq])
                    | Inr response \<Rightarrow>
                        (case raise_for_status response of
                           Inl e \<Rightarrow> (Inl e, reg, [rq])
                         | Inr _ \<Rightarrow> (unwrap_envelope ''contents'' response, reg, [rq])))
           else (Inl (ValueError (PStr (''Unsupported transport: '' @ transport srv))), reg, [])))"

subsection \<open>MCPRouter.check_server_health\<close>

definition check_server_health ::
  "MCPRegistry \<Rightarrow> string \<Rightarrow> io \<Rightarrow> pydict \<times> MCPRegistry \<times> http_request list" where
  "check_server_health reg server_name w =
     (case map_of (servers reg) server_name of
        None \<Rightarrow> ([(''name'', PStr server_name), (''status'', PStr ''not_found'')], reg, [])
      | Some srv \<Rightarrow>
          (if transport srv = ''http''
           then (let rq = \<lparr> http_method = ''GET'', url = endpoint srv @ ''/health'',
                            json_payload = None \<rparr>
                 in case http_result (reply w) of
                      Inr response \<Rightarrow>
                        (if status_code response = 200
                         then ([(''name'', PStr server_name), (''status'', PStr ''available''),
                                (''response_time_ms'', PFloat (elapsed_ms response))],
                               snd (update_server_status reg server_name ''available'' (now w)), [rq])
                         else ([(''name'', PStr server_name), (''status'', PStr ''degraded''),
                                (''status_code'', PInt (int (status_code response)))],
                               snd (update_server_status reg server_name ''degraded'' (now w)), [rq]))
                    | Inl ConnectError \<Rightarrow>
                        ([(''name'', PStr server_name), (''status'', PStr ''unavailable''),
                          (''error'', PStr ''Connection refused'')],
                         snd (update_server_status reg server_name ''unavailable'' (now w)), [rq])
                    | Inl TimeoutException \<Rightarrow>
                        ([(''name'', PStr server_name), (''status'', PStr ''degraded''),
                          (''error'', PStr ''Timeout'')],
                         snd (update_server_status reg server_name ''degraded'' (now w)), [rq])
                    | Inl e \<Rightarrow>
                        ([(''name'', PStr server_name), (''status'', PStr ''unavailable''),
                          (''error'', PStr (str_exn (render w) e))],
                         snd (update_server_status reg server_name ''unavailable'' (now w)), [rq]))
           else ([(''name'', PStr server_name), (''status'', PStr ''unknown''),
                  (''transport'', PStr (transport srv))], reg, [])))"

section \<open>main.py\<close>

record MCPToolCall =
  req_server :: "string option"
  req_tool :: string
  req_arguments :: pydict
  req_session_id :: "string option"
  req_trace_id :: "string option"

record MCPBatchRequest =
  requests :: "MCPToolCall list"
  parallel :: bool

record MCPResponse =
  resp_id :: string
  success :: bool
  result :: "pyval option"
  error :: "string option"
  resp_server :: "string option"
  execution_time_ms :: "rat option"

subsection \<open>The endpoint call_tool\<close>

text \<open>
  The endpoint \<open>call_tool\<close> of \<open>main.py\<close> is \<open>api_call_tool\<close> here, the router's method
  keeping the name \<open>call_tool\<close>; the fields of the request and of the response carry a
  prefix where their names are those of the registry's record.
\<close>

text \<open>The two ways out of the endpoint after the router was called.\<close>

definition tool_response :: "string \<Rightarrow> string \<Rightarrow> io \<Rightarrow> exn + pyval \<Rightarrow> MCPResponse" where
  "tool_response request_id server_name w outcome =
     (case outcome of
        Inr v \<Rightarrow>
          \<lparr> resp_id = request_id, success = True, result = Some v, error = None,
            resp_server = Some server_name, execution_time_ms = Some (elapsed w) \<rparr>
      | Inl e \<Rightarrow>
          \<lparr> resp_id = request_id, success = False, result = None,
            error = Some (str_exn (render w) e), resp_server = None,
            execution_time_ms = Some (elapsed w) \<rparr>)"

text \<open>
  The server a request is routed to: the one it names or, when it names none, the one
  \<open>find_tool_server\<close> finds. \<open>None\<close> here is the early return "not found on any
  registered server" (an empty name counts as none, as \<open>not server_name\<close> does).
\<close>

definition resolve_server :: "MCPRegistry \<Rightarrow> MCPToolCall \<Rightarrow> string option" where
  "resolve_server reg request =
     (if truthy (req_server request) then req_server request
      else (let found = find_tool_server reg (req_tool request)
            in if truthy found then found else None))"

definition not_found_response :: "string \<Rightarrow> MCPToolCall \<Rightarrow> MCPResponse" where
  "not_found_response request_id request =
     \<lparr> resp_id = request_id, success = False, result = None,
       error = Some (''Tool '' @ [CHR 0x27] @ req_tool request @ [CHR 0x27] @
                     '' not found on any registered server''),
       resp_server = None, execution_time_ms = None \<rparr>"

text \<open>
  The endpoint up to the one point where it is suspended, the request that the router
  posts. \<open>Inl\<close>: it returned this response without sending anything. \<open>Inr\<close>: it waits for
  the provider, with its request id and the server it resolved.
\<close>

definition api_call_tool_begin ::
  "MCPRegistry \<Rightarrow> MCPToolCall \<Rightarrow> io \<Rightarrow> MCPResponse + (string \<times> string \<times> http_request)" where
  "api_call_tool_begin reg request w =
     (let request_id = or_default (req_trace_id request) (uuid w)
      in case resolve_server reg request of
           None \<Rightarrow> Inl (not_found_response request_id request)
         | Some server_name \<Rightarrow>
             (case call_tool_begin reg server_name (req_tool request) (req_arguments request)
                     (req_session_id request) (Some request_id) of
                Inl e \<Rightarrow> Inl (tool_response request_id server_name w (Inl e))
              | Inr rq \<Rightarrow> Inr (request_id, server_name, rq)))"

text \<open>The endpoint from the provider's answer on, on the registry as it is by then.\<close>

definition api_call_tool_resume ::
  "MCPRegistry \<Rightarrow> string \<Rightarrow> string \<Rightarrow> io \<Rightarrow> MCPResponse \<times> MCPRegistry" where
  "api_call_tool_resume reg request_id server_name w =
     (let (outcome, reg') = call_tool_finish reg server_name w
      in (tool_response request_id server_name w outcome, reg'))"

definition api_call_tool ::
  "MCPRegistry \<Rightarrow> MCPToolCall \<Rightarrow> io \<Rightarrow> MCPResponse \<times> MCPRegistry \<times> http_request list" where
  "api_call_tool reg request w =
     (case api_call_tool_begin reg request w of
        Inl response \<Rightarrow> (response, reg, [])
      | Inr (request_id, server_name, rq) \<Rightarrow>
          (let (response, reg') = api_call_tool_resume reg request_id server_name w
           in (response, reg', [rq])))"

subsection \<open>The endpoint batch_call\<close>

text \<open>
  Sequential: one call after the other, each on the registry the one before left. The
  \<open>i\<close>-th request reads its inputs from \<open>ws i\<close>.
\<close>

fun batch_sequential ::
  "MCPRegistry \<Rightarrow> MCPToolCall list \<Rightarrow> (nat \<Rightarrow> io) \<Rightarrow> nat \<Rightarrow>
   MCPResponse list \<times> MCPRegistry \<times> http_request list" where
  "batch_sequential reg [] ws i = ([], reg, [])"
| "batch_sequential reg (req # rest) ws i =
     (let (response, reg1, sent) = api_call_tool reg req (ws i);
          (responses, reg2, sent') = batch_sequential reg1 rest ws (Suc i)
      in (response # responses, reg2, sent @ sent'))"

text \<open>
  Parallel: \<open>asyncio.gather\<close> starts the calls in the order of the list, and each runs
  to its suspension before the next starts; no call writes the registry before it is
  suspended. A task is then finished (with its response, or with an exception that
  \<open>return_exceptions=True\<close> keeps as a value) or suspended. The providers answer in any
  order: \<open>order\<close> lists the indices of the tasks as their answers arrive, and each
  resumed task runs to its end on the registry of that moment. \<open>gather\<close> returns the
  results in the order of the requests once no task is suspended.
\<close>

datatype task =
    Finished "exn + MCPResponse"
  | Suspended string string

definition start_task :: "MCPRegistry \<Rightarrow> (nat \<Rightarrow> io) \<Rightarrow> nat \<times> MCPToolCall \<Rightarrow> task" where
  "start_task reg ws p =
     (case api_call_tool_begin reg (snd p) (ws (fst p)) of
        Inl response \<Rightarrow> Finished (Inr response)
      | Inr (request_id, server_name, rq) \<Rightarrow> Suspended request_id server_name)"

definition sent_at_start :: "MCPRegistry \<Rightarrow> (nat \<Rightarrow> io) \<Rightarrow> nat \<times> MCPToolCall \<Rightarrow> http_request list" where
  "sent_at_start reg ws p =
     (case api_call_tool_begin reg (snd p) (ws (fst p)) of
        Inl response \<Rightarrow> []
      | Inr (request_id, server_name, rq) \<Rightarrow> [rq])"

definition complete_task ::
  "(nat \<Rightarrow> io) \<Rightarrow> nat \<Rightarrow> task list \<times> MCPRegistry \<Rightarrow> task list \<times> MCPRegistry" where
  "complete_task ws i st =
     (let (ts, reg) = st
      in if i < length ts
         then (case ts ! i of
                 Suspended request_id server_name \<Rightarrow>
                   (let (response, reg') = api_call_tool_resume reg request_id server_name (ws i)
                    in (ts[i := Finished (Inr response)], reg'))
               | Finished r \<Rightarrow> (ts, reg))
         else (ts, reg))"

fun gathered :: "task list \<Rightarrow> (exn + MCPResponse) list option" where
  "gathered [] = Some []"
| "gathered (Finished r # ts) = map_option (\<lambda>rs. r # rs) (gathered ts)"
| "gathered (Suspended request_id server_name # ts) = None"

text \<open>\<open>r if isinstance(r, MCPResponse) else MCPResponse(id=str(uuid4()), success=False, error=str(r))\<close>\<close>

definition as_response :: "io \<Rightarrow> exn + MCPResponse \<Rightarrow> MCPResponse" where
  "as_response w r =
     (case r of
        Inr response \<Rightarrow> response
      | Inl e \<Rightarrow>
          \<lparr> resp_id = batch_uuid w, success = False, result = None,
            error = Some (str_exn (render w) e), resp_server = None,
            execution_time_ms = None \<rparr>)"

text \<open>
  \<open>batch_call\<close>: the results, the registry afterwards and the requests sent. \<open>None\<close>: the
  answers listed in \<open>order\<close> leave a task suspended, so \<open>gather\<close> has not returned.
\<close>

definition batch_call ::
  "MCPRegistry \<Rightarrow> MCPBatchRequest \<Rightarrow> (nat \<Rightarrow> io) \<Rightarrow> nat list \<Rightarrow>
   (MCPResponse list \<times> MCPRegistry \<times> http_request list) option" where
  "batch_call reg request ws order =
     (if parallel request
      then (let started = List.enumerate 0 (requests request);
                (ts, reg') = fold (complete_task ws) order (map (start_task reg ws) started, reg)
            in case gathered ts of
                 None \<Rightarrow> None
               | Some rs \<Rightarrow>
                   Some (map (\<lambda>(i, r). as_response (ws i) r) (List.enumerate 0 rs), reg',
                         concat (map (sent_at_start reg ws) started)))
      else Some (batch_sequential reg (requests request) ws 0))"

subsection \<open>Notions for the proofs about batch_call\<close>

text \<open>The response of one call, as its start on the registry and the provider's answer fix it.\<close>

definition response_of :: "MCPRegistry \<Rightarrow> MCPToolCall \<Rightarrow> io \<Rightarrow> MCPResponse" where
  "response_of reg request w =
     (case api_call_tool_begin reg request w of
        Inl response \<Rightarrow> response
      | Inr (rid, sn, rq) \<Rightarrow> tool_response rid sn w (call_tool_try (reply w)))"

text \<open>
  A task list is settled for a batch when each task is finished with the response of
  its request or suspended on the request its start sent.
\<close>

fun is_finished :: "task \<Rightarrow> bool" where
  "is_finished (Finished r) = True"
| "is_finished (Suspended request_id server_name) = False"

definition settled :: "MCPRegistry \<Rightarrow> (nat \<Rightarrow> io) \<Rightarrow> MCPToolCall list \<Rightarrow> task list \<Rightarrow> bool" where
  "settled reg ws reqs ts \<longleftrightarrow>
     length ts = length reqs \<and>
     (\<forall>i<length reqs.
        ts ! i = Finished (Inr (response_of reg (reqs ! i) (ws i))) \<or>
        (\<exists>rid sn rq. ts ! i = Suspended rid sn \<and>
           api_call_tool_begin reg (reqs ! i) (ws i) = Inr (rid, sn, rq)))"

section \<open>Example values\<close>

definition no_redis :: redis_env where
  "no_redis = \<lparr> REDIS_URL = None, connect_ok = False, command_ok = False \<rparr>"

definition redis_lost :: redis_env where
  "redis_lost =
     \<lparr> REDIS_URL = Some ''redis://cache:6379'', connect_ok = True, command_ok = False \<rparr>"

definition mail_v1 :: MCPServerInfo where
  "mail_v1 =
     \<lparr> name = ''mail'', version = ''1'', description = ''Mail'', endpoint = ''http://mail'',
       transport = ''http'', tools = [[(''name'', PStr ''send'')], [(''name'', PStr ''search'')]],
       resources = [], metadata = [], status = ''degraded'', last_health_check = 5,
       registered_at = 1 \<rparr>"

definition chat_v1 :: MCPServerInfo where
  "chat_v1 =
     \<lparr> name = ''chat'', version = ''1'', description = ''Chat'', endpoint = ''http://chat'',
       transport = ''http'', tools = [[(''name'', PStr ''search'')], [(''name'', PStr ''post'')]],
       resources = [], metadata = [], status = ''available'', last_health_check = 2,
       registered_at = 2 \<rparr>"

definition two_servers :: MCPRegistry where
  "two_servers = \<lparr> servers = [(''mail'', mail_v1), (''chat'', chat_v1)], redis = None \<rparr>"

text \<open>
  The fields of a record other than \<open>status\<close> and \<open>last_health_check\<close>, and the table
  reduced to them, in its order.
\<close>

definition frame :: "MCPServerInfo \<Rightarrow> string \<times> string \<times> string \<times> string \<times> string \<times> pydict list \<times> pydict list \<times> pydict \<times> datetime" where
  "frame s = (name s, version s, description s, endpoint s, transport s, tools s, resources s,
      metadata s, registered_at s)"

definition frames :: "MCPRegistry \<Rightarrow> (string \<times> string \<times> string \<times> string \<times> string \<times> string \<times> pydict list \<times> pydict list \<times> pydict \<times> datetime) list" where
  "frames reg = map (\<lambda>p. (fst p, frame (snd p))) (servers reg)"

text \<open>Inputs of a call: the provider's answer, with fixed clock readings and ids.\<close>

definition answer :: "http_outcome \<Rightarrow> io" where
  "answer outcome =
     \<lparr> reply = outcome, now = 7, render = (\<lambda>e. ''exception''), uuid = ''u-1'',
       batch_uuid = ''u-2'', elapsed = 2 \<rparr>"

definition status_reply :: "nat \<Rightarrow> http_outcome" where
  "status_reply c = Replied \<lparr> status_code = c, json_body = None, elapsed_ms = 3 \<rparr>"

text \<open>The requests the router sends to a provider at endpoint \<open>ep\<close>.\<close>

definition post_mcp :: "string \<Rightarrow> pyval \<Rightarrow> http_request" where
  "post_mcp ep body = \<lparr> http_method = ''POST'', url = ep @ ''/mcp'', json_payload = Some body \<rparr>"

definition get_health :: "string \<Rightarrow> http_request" where
  "get_health ep = \<lparr> http_method = ''GET'', url = ep @ ''/health'', json_payload = None \<rparr>"

definition ok_reply :: http_outcome where
  "ok_reply = Replied \<lparr> status_code = 200,
      json_body = Some (PDict [(''result'', PDict [(''content'', PList [PStr ''done''])])]),
      elapsed_ms = 3 \<rparr>"

definition call_chat :: MCPToolCall where
  "call_chat = \<lparr> req_server = Some ''chat'', req_tool = ''post'', req_arguments = [],
      req_session_id = None, req_trace_id = Some ''t1'' \<rparr>"

definition call_files :: MCPToolCall where
  "call_files = \<lparr> req_server = Some ''files'', req_tool = ''fetch'', req_arguments = [],
      req_session_id = None, req_trace_id = Some ''t2'' \<rparr>"

definition call_post :: MCPToolCall where
  "call_post = \<lparr> req_server = None, req_tool = ''post'', req_arguments = [],
      req_session_id = None, req_trace_id = None \<rparr>"

section \<open>The registry: registration\<close>

lemma servers_get_redis: "servers (snd (get_redis reg env)) = servers reg"
  by (simp add: get_redis_def split: option.splits)

lemma servers_register:
  "servers (snd (register reg env nm ver descr ep tr tls res md t_hc t_reg)) =
     AList.update nm (MCPServerInfo_init nm ver descr ep tr tls res md t_hc t_reg) (servers reg)"
proof -
  let ?reg1 = "reg\<lparr>servers := AList.update nm
      (MCPServerInfo_init nm ver descr ep tr tls res md t_hc t_reg) (servers reg)\<rparr>"
  obtain c reg2 where g: "get_redis ?reg1 env = (c, reg2)"
    by (cases "get_redis ?reg1 env")
  have "servers (snd (get_redis ?reg1 env)) = servers ?reg1"
    by (rule servers_get_redis)
  with g have "servers reg2 = servers ?reg1"
    by simp
  with g show ?thesis
    by (simp add: register_def Let_def split: option.splits)
qed

text \<open>
  C10. Whatever the registry held and whatever the Redis mirror does, the record stored
  under the name after \<open>register\<close> has status \<open>available\<close> and carries the two clock
  readings of this call as \<open>last_health_check\<close> and \<open>registered_at\<close>: the status, the
  health history and the registration time of an earlier record of that name are gone.
\<close>

theorem register_resets_status:
  "map_option (\<lambda>s. (status s, last_health_check s, registered_at s))
     (map_of (servers (snd (register reg env nm ver descr ep tr tls res md t_hc t_reg))) nm)
   = Some (''available'', t_hc, t_reg)"
  by (simp add: servers_register update_conv' MCPServerInfo_init_def)

lemma map_of_to_dict_name: "map_of (to_dict s) ''name'' = Some (PStr (name s))"
  by (simp add: to_dict_def)

lemma has_tool_iff:
  "has_tool tls t \<longleftrightarrow> (\<exists>tool\<in>set tls. map_of tool ''name'' = Some (PStr t))"
  by (induction tls) auto

lemma find_in_servers_None:
  "find_in_servers ss t = None \<longleftrightarrow> (\<forall>s\<in>set ss. \<not> has_tool (tools s) t)"
  by (induction ss) auto

lemma find_in_servers_first:
  "\<forall>s\<in>set pre. \<not> has_tool (tools s) t \<Longrightarrow> has_tool (tools s) t \<Longrightarrow>
   find_in_servers (pre @ s # post) t = Some (name s)"
  by (induction pre) auto

lemma filter_update_key:
  "distinct (map fst xs) \<Longrightarrow> filter (\<lambda>p. fst p = k) (AList.update k v xs) = [(k, v)]"
proof (induction xs)
  case Nil
  then show ?case by simp
next
  case (Cons p xs)
  then show ?case
    by (cases p) (auto simp: filter_empty_conv image_iff)
qed

lemma keyed_update:
  "list_all (\<lambda>(k, s). name s = k) xs \<Longrightarrow> name s = k \<Longrightarrow>
   list_all (\<lambda>(k, s). name s = k) (AList.update k s xs)"
  by (induction xs) auto

lemma keyed_delete:
  "list_all (\<lambda>(k, s). name s = k) xs \<Longrightarrow> list_all (\<lambda>(k, s). name s = k) (AList.delete k' xs)"
  by (induction xs) auto

lemma registry_ok_register:
  assumes "registry_ok reg"
  shows "registry_ok (snd (register reg env nm ver descr ep tr tls res md t_hc t_reg))"
proof -
  have "name (MCPServerInfo_init nm ver descr ep tr tls res md t_hc t_reg) = nm"
    by (simp add: MCPServerInfo_init_def)
  with assms show ?thesis
    by (simp add: registry_ok_def servers_register distinct_update keyed_update)
qed

lemma filter_by_name:
  assumes "list_all (\<lambda>(k, s). name s = k) xs"
  shows "filter (\<lambda>d. map_of d ''name'' = Some (PStr nm)) (map to_dict (map snd xs))
       = map to_dict (map snd (filter (\<lambda>p. fst p = nm) xs))"
  using assms by (induction xs) (auto simp: map_of_to_dict_name)

text \<open>
  On a registry whose table is keyed by the records' names, after \<open>register\<close> the listing
  \<open>list_servers\<close> has exactly one entry of that name, and it is the freshly built record:
  the fields supplied, nothing of an earlier record of that name (its tools are not
  merged). This holds whatever the Redis mirror does.
\<close>

lemma register_overwrites:
  assumes "registry_ok reg"
  shows "filter (\<lambda>d. map_of d ''name'' = Some (PStr nm))
           (list_servers (snd (register reg env nm ver descr ep tr tls res md t_hc t_reg)))
         = [to_dict (MCPServerInfo_init nm ver descr ep tr tls res md t_hc t_reg)]"
proof -
  let ?new = "MCPServerInfo_init nm ver descr ep tr tls res md t_hc t_reg"
  let ?reg' = "snd (register reg env nm ver descr ep tr tls res md t_hc t_reg)"
  have ok: "registry_ok ?reg'"
    using assms by (rule registry_ok_register)
  have "filter (\<lambda>p. fst p = nm) (servers ?reg') = [(nm, ?new)]"
    using assms by (simp add: servers_register registry_ok_def filter_update_key)
  moreover have "filter (\<lambda>d. map_of d ''name'' = Some (PStr nm)) (list_servers ?reg')
      = map to_dict (map snd (filter (\<lambda>p. fst p = nm) (servers ?reg')))"
    unfolding list_servers_def using ok by (intro filter_by_name) (simp add: registry_ok_def)
  ultimately show ?thesis
    by simp
qed

lemma registry_ok_two_servers: "registry_ok two_servers"
  by (simp add: registry_ok_def two_servers_def mail_v1_def chat_v1_def)

text \<open>
  C3. \<open>register\<close> does not always succeed. \<open>_get_redis\<close> swallows a failure to reach
  Redis and the registry goes on in memory, but the \<open>hset\<close> that follows is not guarded:
  with a client connected and the command failing, \<open>register\<close> raises. The table was
  written before that: the registry it leaves lists exactly one entry \<open>mail\<close>, with the
  new fields and the new tools only, as the claim says of a registration.
\<close>

theorem register_raises_after_write:
  "fst (register two_servers redis_lost ''mail'' ''2'' ''Mail two'' ''http://mail2''
        ''http'' (Some [[(''name'', PStr ''fetch'')]]) None None 8 9) = Inl RedisError
   \<and> filter (\<lambda>d. map_of d ''name'' = Some (PStr ''mail''))
     (list_servers (snd (register two_servers redis_lost ''mail'' ''2'' ''Mail two''
        ''http://mail2'' ''http'' (Some [[(''name'', PStr ''fetch'')]]) None None 8 9)))
   = [[(''name'', PStr ''mail''), (''version'', PStr ''2''), (''description'', PStr ''Mail two''),
       (''endpoint'', PStr ''http://mail2''), (''transport'', PStr ''http''),
       (''tools'', PList [PDict [(''name'', PStr ''fetch'')]]), (''resources'', PList []),
       (''metadata'', PDict []), (''status'', PStr ''available''),
       (''last_health_check'', PTime 8), (''registered_at'', PTime 9)]]"
proof -
  have "fst (register two_servers redis_lost ''mail'' ''2'' ''Mail two'' ''http://mail2''
        ''http'' (Some [[(''name'', PStr ''fetch'')]]) None None 8 9) = Inl RedisError"
    by (simp add: register_def get_redis_def two_servers_def redis_lost_def Let_def)
  then show ?thesis
    by (simp add: register_overwrites [OF registry_ok_two_servers] MCPServerInfo_init_def
        to_dict_def)
qed

lemma update_new_key: "k \<notin> fst ` set xs \<Longrightarrow> AList.update k v xs = xs @ [(k, v)]"
  by (induction xs) auto

lemma frames_update:
  "map_of xs k = Some s \<Longrightarrow> frame s' = frame s \<Longrightarrow>
   map (\<lambda>p. (fst p, frame (snd p))) (AList.update k s' xs) = map (\<lambda>p. (fst p, frame (snd p))) xs"
  by (induction xs) (auto split: if_splits)

lemma frames_update_server_status:
  "frames (snd (update_server_status reg nm st t)) = frames reg"
proof (cases "map_of (servers reg) nm")
  case None
  then show ?thesis by (simp add: update_server_status_def)
next
  case (Some s)
  have "frame (s\<lparr>status := st, last_health_check := t\<rparr>) = frame s"
    by (simp add: frame_def)
  with Some show ?thesis
    by (simp add: update_server_status_def frames_def frames_update)
qed

lemma keys_frames: "map fst (servers reg) = map fst (frames reg)"
  by (simp add: frames_def comp_def)

lemma keys_update_server_status:
  "map fst (servers (snd (update_server_status reg nm st t))) = map fst (servers reg)"
  by (simp add: keys_frames frames_update_server_status)

section \<open>The registry: discovery\<close>

text \<open>
  C6. \<open>find_tool_server\<close> returns none exactly when no registered provider has a tool
  whose \<open>name\<close> is the tool name. When the table is \<open>pre\<close>, then a provider that declares
  the tool, then \<open>post\<close>, and no provider in \<open>pre\<close> declares it, the result is that
  provider's name, whatever \<open>post\<close> holds: the only provider that declares it, or the first
  of several in the order of the table. That order is the order of insertion: \<open>register\<close>
  appends a new name at the end, and a status update moves nothing. The function reads
  the registry and writes nothing, so its result on an unchanged registry is the same.
\<close>

theorem find_tool_server_first_match:
  "(find_tool_server reg t = None \<longleftrightarrow>
      (\<forall>p\<in>set (servers reg). \<forall>tool\<in>set (tools (snd p)). map_of tool ''name'' \<noteq> Some (PStr t)))
   \<and> (servers reg = pre @ (k, s) # post \<and>
        (\<forall>p\<in>set pre. \<forall>tool\<in>set (tools (snd p)). map_of tool ''name'' \<noteq> Some (PStr t)) \<and>
        (\<exists>tool\<in>set (tools s). map_of tool ''name'' = Some (PStr t))
        \<longrightarrow> find_tool_server reg t = Some (name s))
   \<and> (nm \<notin> fst ` set (servers reg) \<longrightarrow>
        servers (snd (register reg env nm ver descr ep tr tls res md t_hc t_reg))
        = servers reg @ [(nm, MCPServerInfo_init nm ver descr ep tr tls res md t_hc t_reg)])
   \<and> map fst (servers (snd (update_server_status reg nm st t'))) = map fst (servers reg)"
proof (intro conjI impI)
  show "find_tool_server reg t = None \<longleftrightarrow>
      (\<forall>p\<in>set (servers reg). \<forall>tool\<in>set (tools (snd p)). map_of tool ''name'' \<noteq> Some (PStr t))"
    by (simp add: find_tool_server_def find_in_servers_None has_tool_iff)
next
  assume a: "servers reg = pre @ (k, s) # post \<and>
        (\<forall>p\<in>set pre. \<forall>tool\<in>set (tools (snd p)). map_of tool ''name'' \<noteq> Some (PStr t)) \<and>
        (\<exists>tool\<in>set (tools s). map_of tool ''name'' = Some (PStr t))"
  then have "\<forall>x\<in>set (map snd pre). \<not> has_tool (tools x) t" and "has_tool (tools s) t"
    by (auto simp: has_tool_iff)
  then have "find_in_servers (map snd pre @ s # map snd post) t = Some (name s)"
    by (rule find_in_servers_first)
  with a show "find_tool_server reg t = Some (name s)"
    by (simp add: find_tool_server_def)
next
  assume "nm \<notin> fst ` set (servers reg)"
  then show "servers (snd (register reg env nm ver descr ep tr tls res md t_hc t_reg))
        = servers reg @ [(nm, MCPServerInfo_init nm ver descr ep tr tls res md t_hc t_reg)]"
    by (simp add: servers_register update_new_key)
next
  show "map fst (servers (snd (update_server_status reg nm st t'))) = map fst (servers reg)"
    by (rule keys_update_server_status)
qed

theorem find_tool_server_first_match_witness:
  "find_tool_server two_servers ''search'' = Some ''mail'' \<and>
   find_tool_server two_servers ''post'' = Some ''chat'' \<and>
   (find_tool_server two_servers ''absent'' = None) = True \<and>
   servers (snd (register two_servers no_redis ''files'' ''1'' ''Files'' ''http://files'' ''http''
     None None None 3 4)) = servers two_servers @
       [(''files'', MCPServerInfo_init ''files'' ''1'' ''Files'' ''http://files'' ''http'' None None None 3 4)]"
proof -
  note th = find_tool_server_first_match [where reg = two_servers and nm = "''files''"
      and env = no_redis and ver = "''1''" and descr = "''Files''" and ep = "''http://files''"
      and tr = "''http''" and tls = None and res = None and md = None and t_hc = 3 and t_reg = 4
      and st = "''ok''" and t' = 0]
  have "find_tool_server two_servers ''search'' = Some (name mail_v1)"
    using th [where t = "''search''" and pre = "[]" and k = "''mail''" and s = mail_v1
        and post = "[(''chat'', chat_v1)]"]
    by (simp add: two_servers_def mail_v1_def)
  moreover have "find_tool_server two_servers ''post'' = Some (name chat_v1)"
    using th [where t = "''post''" and pre = "[(''mail'', mail_v1)]" and k = "''chat''"
        and s = chat_v1 and post = "[]"]
    by (simp add: two_servers_def mail_v1_def chat_v1_def)
  moreover have "find_tool_server two_servers ''absent'' = None"
    using th [where t = "''absent''" and pre = "[]" and k = "''mail''" and s = mail_v1
        and post = "[(''chat'', chat_v1)]"]
    by (simp add: two_servers_def mail_v1_def chat_v1_def)
  moreover have "servers (snd (register two_servers no_redis ''files'' ''1'' ''Files'' ''http://files'' ''http''
     None None None 3 4)) = servers two_servers @
       [(''files'', MCPServerInfo_init ''files'' ''1'' ''Files'' ''http://files'' ''http'' None None None 3 4)]"
    using th [where t = "''absent''" and pre = "[]" and k = "''mail''" and s = mail_v1
        and post = "[(''chat'', chat_v1)]"]
    by (simp add: two_servers_def)
  ultimately show ?thesis
    by (simp add: mail_v1_def chat_v1_def)
qed



section \<open>The registry: unregistration\<close>

lemma servers_unregister: "servers (snd (unregister reg env nm)) = AList.delete nm (servers reg)"
proof (cases "nm \<in> fst ` set (servers reg)")
  case False
  then show ?thesis by (simp add: unregister_def)
next
  case True
  let ?reg1 = "reg\<lparr>servers := AList.delete nm (servers reg)\<rparr>"
  obtain c reg2 where g: "get_redis ?reg1 env = (c, reg2)"
    by (cases "get_redis ?reg1 env")
  have "servers (snd (get_redis ?reg1 env)) = servers ?reg1"
    by (rule servers_get_redis)
  with g have "servers reg2 = servers ?reg1"
    by simp
  with g True show ?thesis
    by (simp add: unregister_def Let_def split: option.splits)
qed

lemma servers_register_unregister:
  "servers (snd (unregister (snd (register reg env nm ver descr ep tr tls res md t_hc t_reg)) env' nm))
   = AList.delete nm (servers reg)"
  by (simp add: servers_unregister servers_register delete_update_same)

lemma set_delete: "set (AList.delete k xs) = {p \<in> set xs. fst p \<noteq> k}"
  by (induction xs) auto

text \<open>
  C8. On a registry keyed by the records' names, register a provider under \<open>nm\<close> and
  unregister \<open>nm\<close>, whatever the Redis mirror does in either call. Afterwards
  \<open>list_all_tools\<close> is the listing of the table without \<open>nm\<close>; no record is keyed or named
  \<open>nm\<close>; every entry of the listing is a tool of a provider registered under another
  name, annotated by that provider's record, whose name is not \<open>nm\<close>; \<open>find_tool_server\<close>
  returns none for every tool name that no other provider declares; and \<open>get_server\<close>
  returns none for \<open>nm\<close>.
\<close>

theorem unregister_removes_tools:
  assumes "registry_ok reg"
  shows "list_all_tools (snd (unregister
             (snd (register reg env nm ver descr ep tr tls res md t_hc t_reg)) env' nm))
         = list_all_tools (reg\<lparr>servers := AList.delete nm (servers reg)\<rparr>)
       \<and> (\<forall>p\<in>set (servers (snd (unregister
             (snd (register reg env nm ver descr ep tr tls res md t_hc t_reg)) env' nm))).
            fst p \<noteq> nm \<and> name (snd p) \<noteq> nm)
       \<and> (\<forall>entry\<in>set (list_all_tools (snd (unregister
             (snd (register reg env nm ver descr ep tr tls res md t_hc t_reg)) env' nm))).
            \<exists>p\<in>set (servers reg). fst p \<noteq> nm \<and> name (snd p) \<noteq> nm \<and>
              (\<exists>tool\<in>set (tools (snd p)). entry = annotate_tool (snd p) tool))
       \<and> ((\<forall>p\<in>set (servers reg). fst p \<noteq> nm \<longrightarrow>
             (\<forall>tool\<in>set (tools (snd p)). map_of tool ''name'' \<noteq> Some (PStr t)))
          \<longrightarrow> find_tool_server (snd (unregister
             (snd (register reg env nm ver descr ep tr tls res md t_hc t_reg)) env' nm)) t = None)
       \<and> get_server (snd (unregister
             (snd (register reg env nm ver descr ep tr tls res md t_hc t_reg)) env' nm)) nm = None"
proof -
  let ?reg2 = "snd (unregister (snd (register reg env nm ver descr ep tr tls res md t_hc t_reg)) env' nm)"
  have sv: "servers ?reg2 = AList.delete nm (servers reg)"
    by (rule servers_register_unregister)
  have named: "name (snd p) = fst p" if "p \<in> set (servers reg)" for p
    using assms that by (auto simp: registry_ok_def list_all_iff)
  have "list_all_tools ?reg2 = list_all_tools (reg\<lparr>servers := AList.delete nm (servers reg)\<rparr>)"
    by (simp add: list_all_tools_def sv)
  moreover have "fst p \<noteq> nm \<and> name (snd p) \<noteq> nm" if "p \<in> set (servers ?reg2)" for p
    using that named [of p] by (auto simp: sv set_delete)
  moreover have "\<exists>p\<in>set (servers reg). fst p \<noteq> nm \<and> name (snd p) \<noteq> nm \<and>
      (\<exists>tool\<in>set (tools (snd p)). entry = annotate_tool (snd p) tool)"
    if "entry \<in> set (list_all_tools ?reg2)" for entry
  proof -
    from that sv obtain p tool where p: "p \<in> set (servers reg)" "fst p \<noteq> nm"
      and tool: "tool \<in> set (tools (snd p))" and e: "entry = annotate_tool (snd p) tool"
      by (auto simp: list_all_tools_def set_delete)
    from named [OF p(1)] p(2) have "name (snd p) \<noteq> nm"
      by simp
    with p tool e show ?thesis
      by blast
  qed
  moreover have "find_tool_server ?reg2 t = None"
    if "\<forall>p\<in>set (servers reg). fst p \<noteq> nm \<longrightarrow>
          (\<forall>tool\<in>set (tools (snd p)). map_of tool ''name'' \<noteq> Some (PStr t))"
    using that by (auto simp: find_tool_server_def find_in_servers_None has_tool_iff sv set_delete)
  moreover have "get_server ?reg2 nm = None"
    by (simp add: get_server_def sv delete_conv')
  ultimately show ?thesis
    by blast
qed

theorem unregister_removes_tools_witness:
  "registry_ok two_servers \<and>
   list_all_tools (snd (unregister (snd (register two_servers no_redis ''mail'' ''2'' ''Mail two''
      ''http://mail2'' ''http'' (Some [[(''name'', PStr ''fetch'')]]) None None 8 9)) no_redis ''mail''))
   = [[(''server'', PStr ''chat''), (''server_status'', PStr ''available''), (''name'', PStr ''search'')],
      [(''server'', PStr ''chat''), (''server_status'', PStr ''available''), (''name'', PStr ''post'')]] \<and>
   map fst (servers (snd (unregister (snd (register two_servers no_redis ''mail'' ''2'' ''Mail two''
      ''http://mail2'' ''http'' (Some [[(''name'', PStr ''fetch'')]]) None None 8 9)) no_redis ''mail'')))
   = [''chat''] \<and>
   find_tool_server (snd (unregister (snd (register two_servers no_redis ''mail'' ''2'' ''Mail two''
      ''http://mail2'' ''http'' (Some [[(''name'', PStr ''fetch'')]]) None None 8 9)) no_redis ''mail''))
      ''fetch'' = None \<and>
   find_tool_server (snd (unregister (snd (register two_servers no_redis ''mail'' ''2'' ''Mail two''
      ''http://mail2'' ''http'' (Some [[(''name'', PStr ''fetch'')]]) None None 8 9)) no_redis ''mail''))
      ''search'' = Some ''chat'' \<and>
   get_server (snd (unregister (snd (register two_servers no_redis ''mail'' ''2'' ''Mail two''
      ''http://mail2'' ''http'' (Some [[(''name'', PStr ''fetch'')]]) None None 8 9)) no_redis ''mail''))
      ''mail'' = None"
proof -
  let ?reg2 = "snd (unregister (snd (register two_servers no_redis ''mail'' ''2'' ''Mail two''
      ''http://mail2'' ''http'' (Some [[(''name'', PStr ''fetch'')]]) None None 8 9)) no_redis ''mail'')"
  note th = unregister_removes_tools [OF registry_ok_two_servers, where nm = "''mail''"
        and t = "''fetch''" and env = no_redis and env' = no_redis and ver = "''2''"
        and descr = "''Mail two''" and ep = "''http://mail2''" and tr = "''http''"
        and tls = "Some [[(''name'', PStr ''fetch'')]]" and res = None and md = None
        and t_hc = 8 and t_reg = 9]
  from th have c1: "list_all_tools ?reg2
      = list_all_tools (two_servers\<lparr>servers := AList.delete ''mail'' (servers two_servers)\<rparr>)"
    by blast
  have h: "\<forall>p\<in>set (servers two_servers). fst p \<noteq> ''mail'' \<longrightarrow>
           (\<forall>tool\<in>set (tools (snd p)). map_of tool ''name'' \<noteq> Some (PStr ''fetch''))"
    by (simp add: two_servers_def mail_v1_def chat_v1_def)
  from th h have c2: "find_tool_server ?reg2 ''fetch'' = None"
    by blast
  from th have c3: "get_server ?reg2 ''mail'' = None"
    by blast
  have sv: "servers ?reg2 = [(''chat'', chat_v1)]"
    by (simp add: servers_register_unregister two_servers_def)
  have c4: "find_tool_server ?reg2 ''search'' = Some ''chat''"
    by (simp add: find_tool_server_def sv chat_v1_def)
  have c5: "list_all_tools (two_servers\<lparr>servers := AList.delete ''mail'' (servers two_servers)\<rparr>)
      = [[(''server'', PStr ''chat''), (''server_status'', PStr ''available''), (''name'', PStr ''search'')],
         [(''server'', PStr ''chat''), (''server_status'', PStr ''available''), (''name'', PStr ''post'')]]"
    by (simp add: list_all_tools_def two_servers_def chat_v1_def annotate_tool_def dict_merge_def)
  from registry_ok_two_servers c1 c5 c2 c3 c4 sv show ?thesis
    by simp
qed

section \<open>The router\<close>

lemma map_of_update_server_status:
  "map_of (servers reg) nm = Some s \<Longrightarrow>
   map_of (servers (snd (update_server_status reg nm st t))) nm
     = Some (s\<lparr>status := st, last_health_check := t\<rparr>)"
  by (simp add: update_server_status_def update_conv')

text \<open>
  C5. \<open>call_tool\<close> on a name that is not in the registry raises
  \<open>ValueError("Server not found: ...")\<close>; on a server whose status is not \<open>available\<close> it
  raises \<open>ValueError("Server ... is not available (status: ...)")\<close>. In both cases it has
  sent no HTTP request and the registry is the one it was given.
\<close>

theorem call_tool_guards:
  "(map_of (servers reg) sn = None \<longrightarrow>
      call_tool reg sn tool_nm args sid tid w
      = (Inl (ValueError (PStr (''Server not found: '' @ sn))), reg, []))
   \<and> (map_of (servers reg) sn = Some srv \<and> status srv \<noteq> ''available'' \<longrightarrow>
      call_tool reg sn tool_nm args sid tid w
      = (Inl (ValueError (PStr (''Server '' @ sn @ '' is not available (status: '' @
            status srv @ '')''))), reg, []))"
  by (simp add: call_tool_def call_tool_begin_def)

theorem call_tool_guards_witness:
  "call_tool two_servers ''files'' ''fetch'' [] None None (answer (status_reply 200))
     = (Inl (ValueError (PStr ''Server not found: files'')), two_servers, [])
   \<and> call_tool two_servers ''mail'' ''send'' [] None None (answer (status_reply 200))
     = (Inl (ValueError (PStr ''Server mail is not available (status: degraded)'')), two_servers, [])"
  using call_tool_guards [where reg = two_servers and sn = "''files''" and tool_nm = "''fetch''"
      and args = "[]" and sid = None and tid = None and w = "answer (status_reply 200)"]
    call_tool_guards [where reg = two_servers and sn = "''mail''" and tool_nm = "''send''"
      and args = "[]" and sid = None and tid = None and w = "answer (status_reply 200)"
      and srv = mail_v1]
  by (simp add: two_servers_def mail_v1_def)

text \<open>
  C2. For a registered provider with status \<open>available\<close> and transport \<open>http\<close>: when the
  provider answers with a status outside 2xx, \<open>call_tool\<close> raises the \<open>HTTPStatusError\<close> of
  \<open>raise_for_status\<close> and the registry it leaves has the provider \<open>degraded\<close>; when the
  connection fails it raises the \<open>ConnectError\<close> and leaves the provider \<open>unavailable\<close>.
  In both cases exactly one request was sent: nothing is tried again.
\<close>

theorem call_tool_marks_health:
  assumes "map_of (servers reg) sn = Some srv"
    and "status srv = ''available''"
    and "transport srv = ''http''"
  shows "(reply w = Replied r \<and> \<not> (200 \<le> status_code r \<and> status_code r \<le> 299) \<longrightarrow>
           call_tool reg sn tool_nm args sid tid w
           = (Inl (HTTPStatusError (status_code r)),
              snd (update_server_status reg sn ''degraded'' (now w)),
              [post_mcp (endpoint srv) (tool_call_request tool_nm args sid tid)])
           \<and> map_of (servers (fst (snd (call_tool reg sn tool_nm args sid tid w)))) sn
             = Some (srv\<lparr>status := ''degraded'', last_health_check := now w\<rparr>))
       \<and> (reply w = ConnectFailed \<longrightarrow>
           call_tool reg sn tool_nm args sid tid w
           = (Inl ConnectError,
              snd (update_server_status reg sn ''unavailable'' (now w)),
              [post_mcp (endpoint srv) (tool_call_request tool_nm args sid tid)])
           \<and> map_of (servers (fst (snd (call_tool reg sn tool_nm args sid tid w)))) sn
             = Some (srv\<lparr>status := ''unavailable'', last_health_check := now w\<rparr>))"
proof -
  have b: "call_tool_begin reg sn tool_nm args sid tid
      = Inr (post_mcp (endpoint srv) (tool_call_request tool_nm args sid tid))"
    using assms by (simp add: call_tool_begin_def post_mcp_def)
  have d: "call_tool reg sn tool_nm args sid tid w
           = (Inl (HTTPStatusError (status_code r)),
              snd (update_server_status reg sn ''degraded'' (now w)),
              [post_mcp (endpoint srv) (tool_call_request tool_nm args sid tid)])"
    if "reply w = Replied r" "\<not> (200 \<le> status_code r \<and> status_code r \<le> 299)"
  proof -
    from that(2) have "raise_for_status r = Inl (HTTPStatusError (status_code r))"
      by (simp add: raise_for_status_def)
    with that(1) have "call_tool_try (reply w) = Inl (HTTPStatusError (status_code r))"
      by (simp add: call_tool_try_def)
    with b show ?thesis
      by (simp add: call_tool_def call_tool_finish_def call_tool_except_def)
  qed
  have u: "call_tool reg sn tool_nm args sid tid w
           = (Inl ConnectError,
              snd (update_server_status reg sn ''unavailable'' (now w)),
              [post_mcp (endpoint srv) (tool_call_request tool_nm args sid tid)])"
    if "reply w = ConnectFailed"
    using that b
    by (simp add: call_tool_def call_tool_finish_def call_tool_try_def call_tool_except_def)
  show ?thesis
    using d u assms(1) by (auto simp: map_of_update_server_status)
qed


lemma map_of_chat: "map_of (servers two_servers) ''chat'' = Some chat_v1"
  by (simp add: two_servers_def)

theorem call_tool_marks_health_witness:
  "call_tool two_servers ''chat'' ''post'' [] None None (answer (status_reply 503))
     = (Inl (HTTPStatusError 503),
        \<lparr> servers = [(''mail'', mail_v1),
                     (''chat'', chat_v1\<lparr>status := ''degraded'', last_health_check := 7\<rparr>)],
          redis = None \<rparr>,
        [post_mcp ''http://chat'' (tool_call_request ''post'' [] None None)])
   \<and> call_tool two_servers ''chat'' ''post'' [] None None (answer ConnectFailed)
     = (Inl ConnectError,
        \<lparr> servers = [(''mail'', mail_v1),
                     (''chat'', chat_v1\<lparr>status := ''unavailable'', last_health_check := 7\<rparr>)],
          redis = None \<rparr>,
        [post_mcp ''http://chat'' (tool_call_request ''post'' [] None None)])"
proof -
  have a: "status chat_v1 = ''available''" and h: "transport chat_v1 = ''http''"
    by (simp_all add: chat_v1_def)
  note th = call_tool_marks_health [OF map_of_chat a h, where tool_nm = "''post''" and args = "[]"
      and sid = None and tid = None]
  have e: "endpoint chat_v1 = ''http://chat''"
    by (simp add: chat_v1_def)
  have u: "snd (update_server_status two_servers ''chat'' st 7)
      = \<lparr> servers = [(''mail'', mail_v1),
                     (''chat'', chat_v1\<lparr>status := st, last_health_check := 7\<rparr>)],
          redis = None \<rparr>" for st
    by (simp add: update_server_status_def two_servers_def)
  have "call_tool two_servers ''chat'' ''post'' [] None None (answer (status_reply 503))
     = (Inl (HTTPStatusError 503), snd (update_server_status two_servers ''chat'' ''degraded'' 7),
        [post_mcp ''http://chat'' (tool_call_request ''post'' [] None None)])"
    using th [where w = "answer (status_reply 503)"
        and r = "\<lparr> status_code = 503, json_body = None, elapsed_ms = 3 \<rparr>"] e
    by (simp add: answer_def status_reply_def)
  moreover have "call_tool two_servers ''chat'' ''post'' [] None None (answer ConnectFailed)
     = (Inl ConnectError, snd (update_server_status two_servers ''chat'' ''unavailable'' 7),
        [post_mcp ''http://chat'' (tool_call_request ''post'' [] None None)])"
    using th [where w = "answer ConnectFailed"] e
    by (simp add: answer_def)
  ultimately show ?thesis
    by (simp only: u)
qed

text \<open>
  C4. For a registered provider with transport \<open>http\<close>, whatever its status was:
  \<open>check_server_health\<close> reports and writes \<open>available\<close> on a 200, \<open>degraded\<close> on any
  other status code, \<open>unavailable\<close> with error \<open>Connection refused\<close> when the connection
  fails, \<open>degraded\<close> with error \<open>Timeout\<close> on a timeout; and \<open>get_server\<close> on the registry
  it leaves shows the record with that status.
\<close>

theorem check_server_health_status:
  assumes "map_of (servers reg) sn = Some srv"
    and "transport srv = ''http''"
  shows "(reply w = Replied r \<and> status_code r = 200 \<longrightarrow>
            check_server_health reg sn w
            = ([(''name'', PStr sn), (''status'', PStr ''available''),
                (''response_time_ms'', PFloat (elapsed_ms r))],
               snd (update_server_status reg sn ''available'' (now w)),
               [get_health (endpoint srv)])
            \<and> get_server (fst (snd (check_server_health reg sn w))) sn
              = Some (to_dict (srv\<lparr>status := ''available'', last_health_check := now w\<rparr>)))
       \<and> (reply w = Replied r \<and> status_code r \<noteq> 200 \<longrightarrow>
            check_server_health reg sn w
            = ([(''name'', PStr sn), (''status'', PStr ''degraded''),
                (''status_code'', PInt (int (status_code r)))],
               snd (update_server_status reg sn ''degraded'' (now w)),
               [get_health (endpoint srv)])
            \<and> get_server (fst (snd (check_server_health reg sn w))) sn
              = Some (to_dict (srv\<lparr>status := ''degraded'', last_health_check := now w\<rparr>)))
       \<and> (reply w = ConnectFailed \<longrightarrow>
            check_server_health reg sn w
            = ([(''name'', PStr sn), (''status'', PStr ''unavailable''),
                (''error'', PStr ''Connection refused'')],
               snd (update_server_status reg sn ''unavailable'' (now w)),
               [get_health (endpoint srv)])
            \<and> get_server (fst (snd (check_server_health reg sn w))) sn
              = Some (to_dict (srv\<lparr>status := ''unavailable'', last_health_check := now w\<rparr>)))
       \<and> (reply w = TimedOut \<longrightarrow>
            check_server_health reg sn w
            = ([(''name'', PStr sn), (''status'', PStr ''degraded''),
                (''error'', PStr ''Timeout'')],
               snd (update_server_status reg sn ''degraded'' (now w)),
               [get_health (endpoint srv)])
            \<and> get_server (fst (snd (check_server_health reg sn w))) sn
              = Some (to_dict (srv\<lparr>status := ''degraded'', last_health_check := now w\<rparr>)))"
proof -
  have g: "get_server (snd (update_server_status reg sn st (now w))) sn
      = Some (to_dict (srv\<lparr>status := st, last_health_check := now w\<rparr>))" for st
    using assms(1) by (simp add: get_server_def map_of_update_server_status)
  have 1: "check_server_health reg sn w
            = ([(''name'', PStr sn), (''status'', PStr ''available''),
                (''response_time_ms'', PFloat (elapsed_ms r))],
               snd (update_server_status reg sn ''available'' (now w)),
               [get_health (endpoint srv)])"
    if "reply w = Replied r" "status_code r = 200"
    using that assms by (simp add: check_server_health_def get_health_def)
  have 2: "check_server_health reg sn w
            = ([(''name'', PStr sn), (''status'', PStr ''degraded''),
                (''status_code'', PInt (int (status_code r)))],
               snd (update_server_status reg sn ''degraded'' (now w)),
               [get_health (endpoint srv)])"
    if "reply w = Replied r" "status_code r \<noteq> 200"
    using that assms by (simp add: check_server_health_def get_health_def)
  have 3: "check_server_health reg sn w
            = ([(''name'', PStr sn), (''status'', PStr ''unavailable''),
                (''error'', PStr ''Connection refused'')],
               snd (update_server_status reg sn ''unavailable'' (now w)),
               [get_health (endpoint srv)])"
    if "reply w = ConnectFailed"
    using that assms by (simp add: check_server_health_def get_health_def)
  have 4: "check_server_health reg sn w
            = ([(''name'', PStr sn), (''status'', PStr ''degraded''),
                (''error'', PStr ''Timeout'')],
               snd (update_server_status reg sn ''degraded'' (now w)),
               [get_health (endpoint srv)])"
    if "reply w = TimedOut"
    using that assms by (simp add: check_server_health_def get_health_def)
  show ?thesis
    using 1 2 3 4 by (simp add: g)
qed


lemma map_of_mail: "map_of (servers two_servers) ''mail'' = Some mail_v1"
  by (simp add: two_servers_def)

theorem check_server_health_status_witness:
  "map_of (fst (check_server_health two_servers ''mail'' (answer (status_reply 200)))) ''status''
     = Some (PStr ''available'')
   \<and> map_option (\<lambda>d. map_of d ''status'')
       (get_server (fst (snd (check_server_health two_servers ''mail'' (answer (status_reply 200))))) ''mail'')
     = Some (Some (PStr ''available''))
   \<and> map_option (\<lambda>d. map_of d ''status'')
       (get_server (fst (snd (check_server_health two_servers ''mail'' (answer (status_reply 503))))) ''mail'')
     = Some (Some (PStr ''degraded''))
   \<and> fst (check_server_health two_servers ''mail'' (answer ConnectFailed))
     = [(''name'', PStr ''mail''), (''status'', PStr ''unavailable''),
        (''error'', PStr ''Connection refused'')]
   \<and> map_option (\<lambda>d. map_of d ''status'')
       (get_server (fst (snd (check_server_health two_servers ''mail'' (answer ConnectFailed)))) ''mail'')
     = Some (Some (PStr ''unavailable''))
   \<and> fst (check_server_health two_servers ''mail'' (answer TimedOut))
     = [(''name'', PStr ''mail''), (''status'', PStr ''degraded''), (''error'', PStr ''Timeout'')]
   \<and> map_option (\<lambda>d. map_of d ''status'')
       (get_server (fst (snd (check_server_health two_servers ''mail'' (answer TimedOut)))) ''mail'')
     = Some (Some (PStr ''degraded''))"
proof -
  have h: "transport mail_v1 = ''http''"
    by (simp add: mail_v1_def)
  note th = check_server_health_status [OF map_of_mail h]
  have n: "now (answer outcome) = 7" for outcome
    by (simp add: answer_def)
  have p200: "reply (answer (status_reply 200))
      = Replied \<lparr> status_code = 200, json_body = None, elapsed_ms = 3 \<rparr>"
    and p503: "reply (answer (status_reply 503))
      = Replied \<lparr> status_code = 503, json_body = None, elapsed_ms = 3 \<rparr>"
    and pc: "reply (answer ConnectFailed) = ConnectFailed"
    and pt: "reply (answer TimedOut) = TimedOut"
    by (simp_all add: answer_def status_reply_def)
  have s200: "status_code \<lparr> status_code = 200, json_body = None, elapsed_ms = 3 \<rparr> = 200"
    and s503: "status_code \<lparr> status_code = 503, json_body = None, elapsed_ms = 3 \<rparr> \<noteq> 200"
    by simp_all
  have c200: "check_server_health two_servers ''mail'' (answer (status_reply 200))
      = ([(''name'', PStr ''mail''), (''status'', PStr ''available''),
          (''response_time_ms'', PFloat (elapsed_ms \<lparr> status_code = 200, json_body = None, elapsed_ms = 3 \<rparr>))],
         snd (update_server_status two_servers ''mail'' ''available'' (now (answer (status_reply 200)))),
         [get_health (endpoint mail_v1)])"
    using th [where w = "answer (status_reply 200)"
        and r = "\<lparr> status_code = 200, json_body = None, elapsed_ms = 3 \<rparr>"] p200 s200
    by blast
  have c503: "check_server_health two_servers ''mail'' (answer (status_reply 503))
      = ([(''name'', PStr ''mail''), (''status'', PStr ''degraded''),
          (''status_code'', PInt (int (status_code \<lparr> status_code = 503, json_body = None, elapsed_ms = 3 \<rparr>)))],
         snd (update_server_status two_servers ''mail'' ''degraded'' (now (answer (status_reply 503)))),
         [get_health (endpoint mail_v1)])"
    using th [where w = "answer (status_reply 503)"
        and r = "\<lparr> status_code = 503, json_body = None, elapsed_ms = 3 \<rparr>"] p503 s503
    by blast
  have cc: "check_server_health two_servers ''mail'' (answer ConnectFailed)
      = ([(''name'', PStr ''mail''), (''status'', PStr ''unavailable''),
          (''error'', PStr ''Connection refused'')],
         snd (update_server_status two_servers ''mail'' ''unavailable'' (now (answer ConnectFailed))),
         [get_health (endpoint mail_v1)])"
    using th [where w = "answer ConnectFailed"] pc
    by blast
  have ct: "check_server_health two_servers ''mail'' (answer TimedOut)
      = ([(''name'', PStr ''mail''), (''status'', PStr ''degraded''), (''error'', PStr ''Timeout'')],
         snd (update_server_status two_servers ''mail'' ''degraded'' (now (answer TimedOut))),
         [get_health (endpoint mail_v1)])"
    using th [where w = "answer TimedOut"] pt
    by blast
  show ?thesis
    unfolding c200 c503 cc ct
    by (simp add: n get_server_def update_server_status_def two_servers_def to_dict_def)
qed

lemma read_resource_registry: "fst (snd (read_resource reg sn uri sid w)) = reg"
  by (simp add: read_resource_def Let_def split: option.splits sum.splits)

text \<open>
  C7. \<open>read_resource\<close> has one \<open>except Exception\<close> clause, which logs and raises again: on
  a 503 and on a refused connection the provider \<open>chat\<close> keeps its status \<open>available\<close>,
  where \<open>call_tool\<close> marks it \<open>degraded\<close> and \<open>unavailable\<close>. The other half of the claim
  holds: the request goes out to \<open>mail\<close>, whose status is \<open>degraded\<close>.
\<close>

theorem read_resource_marks_nothing:
  "read_resource two_servers ''chat'' ''db://schemas'' None (answer (status_reply 503))
     = (Inl (HTTPStatusError 503), two_servers,
        [post_mcp ''http://chat'' (PDict [(''jsonrpc'', PStr ''2.0''), (''id'', PStr ''1''),
           (''method'', PStr ''resources/read''),
           (''params'', PDict [(''uri'', PStr ''db://schemas'')])])])
   \<and> read_resource two_servers ''chat'' ''db://schemas'' None (answer ConnectFailed)
     = (Inl ConnectError, two_servers,
        [post_mcp ''http://chat'' (PDict [(''jsonrpc'', PStr ''2.0''), (''id'', PStr ''1''),
           (''method'', PStr ''resources/read''),
           (''params'', PDict [(''uri'', PStr ''db://schemas'')])])])
   \<and> fst (read_resource two_servers ''mail'' ''db://schemas'' None (answer (status_reply 503)))
     = Inl (HTTPStatusError 503)"
  by (simp add: read_resource_def two_servers_def chat_v1_def mail_v1_def answer_def
      status_reply_def raise_for_status_def post_mcp_def)

lemma frames_call_tool_except: "frames (call_tool_except reg sn e t) = frames reg"
  by (cases e) (simp_all add: call_tool_except_def frames_update_server_status)

lemma frames_call_tool: "frames (fst (snd (call_tool reg sn tool_nm args sid tid w))) = frames reg"
  by (simp add: call_tool_def call_tool_finish_def frames_call_tool_except
      split: sum.splits prod.splits)

lemma frames_check_server_health: "frames (fst (snd (check_server_health reg sn w))) = frames reg"
  by (simp add: check_server_health_def Let_def frames_update_server_status
      split: option.splits sum.splits exn.splits)

text \<open>
  C9. \<open>update_server_status\<close> on an unknown name returns false and the registry as it was.
  On a known name it returns true and the record has the new status and the clock
  reading as \<open>last_health_check\<close>; every other entry and the Redis handle are as before.
  After a status update, a health check or a tool call the table has the same names in
  the same order, each with the same \<open>name\<close>, \<open>version\<close>, \<open>description\<close>, \<open>endpoint\<close>,
  \<open>transport\<close>, \<open>tools\<close>, \<open>resources\<close>, \<open>metadata\<close> and \<open>registered_at\<close>.
\<close>

theorem status_is_the_only_mutation:
  "(map_of (servers reg) nm = None \<longrightarrow> update_server_status reg nm st t = (False, reg))
   \<and> (map_of (servers reg) nm = Some s \<longrightarrow>
        fst (update_server_status reg nm st t) = True
        \<and> map_of (servers (snd (update_server_status reg nm st t))) nm
          = Some (s\<lparr>status := st, last_health_check := t\<rparr>))
   \<and> (k \<noteq> nm \<longrightarrow>
        map_of (servers (snd (update_server_status reg nm st t))) k = map_of (servers reg) k)
   \<and> redis (snd (update_server_status reg nm st t)) = redis reg
   \<and> frames (snd (update_server_status reg nm st t)) = frames reg
   \<and> frames (fst (snd (check_server_health reg nm w))) = frames reg
   \<and> frames (fst (snd (call_tool reg nm tool_nm args sid tid w))) = frames reg"
proof -
  have "map_of (servers (snd (update_server_status reg nm st t))) k = map_of (servers reg) k"
    if "k \<noteq> nm"
    using that by (simp add: update_server_status_def update_conv' split: option.splits)
  moreover have "redis (snd (update_server_status reg nm st t)) = redis reg"
    by (simp add: update_server_status_def split: option.splits)
  moreover have "fst (update_server_status reg nm st t) = True" if "map_of (servers reg) nm = Some s"
    using that by (simp add: update_server_status_def)
  moreover have "update_server_status reg nm st t = (False, reg)" if "map_of (servers reg) nm = None"
    using that by (simp add: update_server_status_def)
  ultimately show ?thesis
    by (simp add: map_of_update_server_status frames_update_server_status
        frames_check_server_health frames_call_tool)
qed

theorem status_is_the_only_mutation_witness:
  "update_server_status two_servers ''files'' ''degraded'' 9 = (False, two_servers)
   \<and> update_server_status two_servers ''mail'' ''available'' 9
     = (True, \<lparr> servers = [(''mail'', mail_v1\<lparr>status := ''available'', last_health_check := 9\<rparr>),
                           (''chat'', chat_v1)], redis = None \<rparr>)
   \<and> map_of (servers (snd (update_server_status two_servers ''mail'' ''available'' 9))) ''chat''
     = Some chat_v1
   \<and> frames (snd (update_server_status two_servers ''mail'' ''available'' 9)) = frames two_servers"
proof -
  note th = status_is_the_only_mutation [where reg = two_servers and st = "''degraded''" and t = 9
      and nm = "''files''" and k = "''chat''" and w = "answer TimedOut" and s = mail_v1]
  note th' = status_is_the_only_mutation [where reg = two_servers and st = "''available''" and t = 9
      and nm = "''mail''" and k = "''chat''" and w = "answer TimedOut" and s = mail_v1]
  have "update_server_status two_servers ''files'' ''degraded'' 9 = (False, two_servers)"
    using th by (simp add: two_servers_def)
  moreover have "map_of (servers (snd (update_server_status two_servers ''mail'' ''available'' 9))) ''chat''
     = Some chat_v1"
    using th' by (simp add: map_of_chat)
  moreover have "frames (snd (update_server_status two_servers ''mail'' ''available'' 9)) = frames two_servers"
    using th' by simp
  moreover have "update_server_status two_servers ''mail'' ''available'' 9
     = (True, \<lparr> servers = [(''mail'', mail_v1\<lparr>status := ''available'', last_health_check := 9\<rparr>),
                           (''chat'', chat_v1)], redis = None \<rparr>)"
    by (simp add: update_server_status_def two_servers_def)
  ultimately show ?thesis
    by simp
qed


section \<open>The gateway: batches\<close>

lemma fst_call_tool_finish: "fst (call_tool_finish reg sn w) = call_tool_try (reply w)"
  by (simp add: call_tool_finish_def split: sum.splits)

lemma fst_api_call_tool_resume:
  "fst (api_call_tool_resume reg rid sn w) = tool_response rid sn w (call_tool_try (reply w))"
proof -
  obtain out reg' where f: "call_tool_finish reg sn w = (out, reg')"
    by (cases "call_tool_finish reg sn w")
  with fst_call_tool_finish [of reg sn w] have "out = call_tool_try (reply w)"
    by simp
  with f show ?thesis
    by (simp add: api_call_tool_resume_def)
qed

lemma fst_api_call_tool: "fst (api_call_tool reg request w) = response_of reg request w"
proof (cases "api_call_tool_begin reg request w")
  case (Inl response)
  then show ?thesis by (simp add: api_call_tool_def response_of_def)
next
  case (Inr p)
  obtain rid sn rq where p: "p = (rid, sn, rq)" by (cases p)
  obtain resp reg' where r: "api_call_tool_resume reg rid sn w = (resp, reg')"
    by (cases "api_call_tool_resume reg rid sn w")
  with fst_api_call_tool_resume [of reg rid sn w]
  have "resp = tool_response rid sn w (call_tool_try (reply w))" by simp
  with Inr p r show ?thesis
    by (simp add: api_call_tool_def response_of_def)
qed

lemma batch_sequential_Cons:
  "batch_sequential reg (r # rest) ws i =
     (fst (api_call_tool reg r (ws i))
        # fst (batch_sequential (fst (snd (api_call_tool reg r (ws i)))) rest ws (Suc i)),
      fst (snd (batch_sequential (fst (snd (api_call_tool reg r (ws i)))) rest ws (Suc i))),
      snd (snd (api_call_tool reg r (ws i)))
        @ snd (snd (batch_sequential (fst (snd (api_call_tool reg r (ws i)))) rest ws (Suc i))))"
  by (simp add: case_prod_unfold Let_def)

lemma length_batch_sequential: "length (fst (batch_sequential reg reqs ws i)) = length reqs"
  by (induction reqs arbitrary: reg i) (simp_all add: batch_sequential_Cons del: batch_sequential.simps(2))

lemma nth_batch_sequential:
  "j < length reqs \<Longrightarrow>
   fst (batch_sequential reg reqs ws i) ! j
   = fst (api_call_tool (fst (snd (batch_sequential reg (take j reqs) ws i))) (reqs ! j) (ws (i + j)))"
proof (induction reqs arbitrary: reg i j)
  case Nil
  then show ?case by simp
next
  case (Cons r reqs)
  show ?case
  proof (cases j)
    case 0
    then show ?thesis by (simp add: batch_sequential_Cons del: batch_sequential.simps(2))
  next
    case (Suc j')
    with Cons.prems have "j' < length reqs" by simp
    from Cons.IH [OF this, of "fst (snd (api_call_tool reg r (ws i)))" "Suc i"] Suc show ?thesis
      by (simp add: batch_sequential_Cons del: batch_sequential.simps(2))
  qed
qed


lemma settled_start: "settled reg ws reqs (map (start_task reg ws) (List.enumerate 0 reqs))"
proof -
  have "start_task reg ws (i, reqs ! i) = Finished (Inr (response_of reg (reqs ! i) (ws i))) \<or>
        (\<exists>rid sn rq. start_task reg ws (i, reqs ! i) = Suspended rid sn \<and>
           api_call_tool_begin reg (reqs ! i) (ws i) = Inr (rid, sn, rq))" for i
    by (cases "api_call_tool_begin reg (reqs ! i) (ws i)")
      (auto simp: start_task_def response_of_def)
  then show ?thesis
    by (simp add: settled_def nth_enumerate_eq)
qed

lemma complete_task_cases:
  obtains (idle) "complete_task ws j (ts, cur) = (ts, cur)" "j < length ts \<longrightarrow> is_finished (ts ! j)"
  | (resumed) rid sn where "j < length ts" "ts ! j = Suspended rid sn"
      "complete_task ws j (ts, cur)
        = (ts[j := Finished (Inr (tool_response rid sn (ws j) (call_tool_try (reply (ws j)))))],
           snd (api_call_tool_resume cur rid sn (ws j)))"
proof (cases "j < length ts")
  case False
  then show ?thesis by (intro idle) (simp_all add: complete_task_def)
next
  case True
  show ?thesis
  proof (cases "ts ! j")
    case (Finished r)
    with True show ?thesis by (intro idle) (simp_all add: complete_task_def)
  next
    case (Suspended rid sn)
    have "complete_task ws j (ts, cur)
        = (ts[j := Finished (Inr (fst (api_call_tool_resume cur rid sn (ws j))))],
           snd (api_call_tool_resume cur rid sn (ws j)))"
      using True Suspended by (simp add: complete_task_def case_prod_unfold Let_def)
    with True Suspended show ?thesis
      by (intro resumed) (simp_all add: fst_api_call_tool_resume)
  qed
qed

lemma settled_complete_task:
  assumes "settled reg ws reqs ts"
  shows "settled reg ws reqs (fst (complete_task ws j (ts, cur)))"
proof (cases rule: complete_task_cases [where ws = ws and j = j and ts = ts and cur = cur])
  case idle
  with assms show ?thesis by simp
next
  case (resumed rid sn)
  from assms resumed(1,2) obtain rq where "api_call_tool_begin reg (reqs ! j) (ws j) = Inr (rid, sn, rq)"
    by (auto simp: settled_def)
  then have "response_of reg (reqs ! j) (ws j) = tool_response rid sn (ws j) (call_tool_try (reply (ws j)))"
    by (simp add: response_of_def)
  with assms resumed show ?thesis
    by (auto simp: settled_def nth_list_update)
qed

lemma finished_complete_task:
  "length (fst (complete_task ws j (ts, cur))) = length ts"
  "i < length ts \<Longrightarrow> is_finished (ts ! i) \<Longrightarrow> is_finished (fst (complete_task ws j (ts, cur)) ! i)"
  "j < length ts \<Longrightarrow> is_finished (fst (complete_task ws j (ts, cur)) ! j)"
  by (cases rule: complete_task_cases [where ws = ws and j = j and ts = ts and cur = cur];
      simp add: nth_list_update)+

lemma fold_complete_task:
  assumes "settled reg ws reqs ts"
  shows "settled reg ws reqs (fst (fold (complete_task ws) order (ts, cur)))
       \<and> (\<forall>i<length reqs. is_finished (ts ! i) \<or> i \<in> set order
             \<longrightarrow> is_finished (fst (fold (complete_task ws) order (ts, cur)) ! i))"
  using assms
proof (induction order arbitrary: ts cur)
  case Nil
  then show ?case by simp
next
  case (Cons j order)
  obtain ts' cur' where c: "complete_task ws j (ts, cur) = (ts', cur')"
    by (cases "complete_task ws j (ts, cur)")
  from settled_complete_task [OF Cons.prems, of j cur] c have s: "settled reg ws reqs ts'"
    by simp
  from Cons.prems have len: "length ts = length reqs"
    by (simp add: settled_def)
  have keep: "is_finished (ts' ! i)" if "i < length reqs" "is_finished (ts ! i) \<or> i = j" for i
    using that finished_complete_task(2,3) [where ts = ts and ws = ws and j = j and cur = cur] c len by auto
  from Cons.IH [OF s, of cur'] keep c show ?case
    by auto
qed

lemma gathered_finished:
  "\<forall>i<length ts. is_finished (ts ! i) \<Longrightarrow>
   \<exists>rs. gathered ts = Some rs \<and> length rs = length ts \<and> (\<forall>i<length ts. ts ! i = Finished (rs ! i))"
proof (induction ts)
  case Nil
  then show ?case by simp
next
  case (Cons t ts)
  from Cons.prems have "is_finished t" by auto
  then obtain r where t: "t = Finished r" by (cases t) auto
  from Cons.prems have "\<forall>i<length ts. is_finished (ts ! i)" by auto
  from Cons.IH [OF this] obtain rs where rs: "gathered ts = Some rs" "length rs = length ts"
    "\<forall>i<length ts. ts ! i = Finished (rs ! i)" by blast
  with t show ?case
    by (auto simp: nth_Cons split: nat.splits)
qed


lemma fst_call_tool:
  "fst (call_tool reg sn tool_nm args sid tid w)
   = (case call_tool_begin reg sn tool_nm args sid tid of
        Inl e \<Rightarrow> Inl e
      | Inr rq \<Rightarrow> call_tool_try (reply w))"
  by (simp add: call_tool_def case_prod_unfold fst_call_tool_finish split: sum.splits)

lemma response_of_call_tool:
  "response_of reg request w
   = (case resolve_server reg request of
        None \<Rightarrow> not_found_response (or_default (req_trace_id request) (uuid w)) request
      | Some sn \<Rightarrow>
          tool_response (or_default (req_trace_id request) (uuid w)) sn w
            (fst (call_tool reg sn (req_tool request) (req_arguments request)
               (req_session_id request) (Some (or_default (req_trace_id request) (uuid w))) w)))"
  by (simp add: response_of_def api_call_tool_begin_def fst_call_tool Let_def
      split: option.splits sum.splits)

lemma batch_call_parallel:
  assumes "parallel request" and "{..<length (requests request)} \<subseteq> set order"
  shows "\<exists>rs reg' sent. batch_call reg request ws order = Some (rs, reg', sent)
      \<and> length rs = length (requests request)
      \<and> (\<forall>i<length (requests request). rs ! i = response_of reg (requests request ! i) (ws i))"
proof -
  let ?reqs = "requests request"
  let ?ts0 = "map (start_task reg ws) (List.enumerate 0 ?reqs)"
  obtain ts reg' where f: "fold (complete_task ws) order (?ts0, reg) = (ts, reg')"
    by (cases "fold (complete_task ws) order (?ts0, reg)")
  from fold_complete_task [OF settled_start, of reg ws ?reqs order reg] f assms(2)
  have st: "settled reg ws ?reqs ts" and fin: "\<forall>i<length ?reqs. is_finished (ts ! i)"
    by auto
  from st have len: "length ts = length ?reqs"
    by (simp add: settled_def)
  from gathered_finished [of ts] fin len obtain rs where rs: "gathered ts = Some rs"
    "length rs = length ?reqs" "\<forall>i<length ?reqs. ts ! i = Finished (rs ! i)"
    by auto
  have val: "rs ! i = Inr (response_of reg (?reqs ! i) (ws i))" if "i < length ?reqs" for i
    using st rs(3) that by (auto simp: settled_def)
  let ?out = "map (\<lambda>(i, r). as_response (ws i) r) (List.enumerate 0 rs)"
  have "batch_call reg request ws order
      = Some (?out, reg', concat (map (sent_at_start reg ws) (List.enumerate 0 ?reqs)))"
    using assms(1) f rs(1) by (simp add: batch_call_def)
  moreover have "length ?out = length ?reqs"
    using rs(2) by simp
  moreover have "?out ! i = response_of reg (?reqs ! i) (ws i)" if "i < length ?reqs" for i
    using that rs(2) val [OF that] by (simp add: nth_enumerate_eq as_response_def)
  ultimately show ?thesis
    by blast
qed

text \<open>
  C1. \<open>batch_call\<close> on \<open>N\<close> requests returns \<open>N\<close> results, the \<open>i\<close>-th being the response of
  the endpoint \<open>call_tool\<close> to the \<open>i\<close>-th request: sequentially on the registry that the
  requests before it left, in parallel on the registry of the start (with the answers
  arriving in any order that answers every request). A response is never an exception:
  when no server is found the endpoint returns the not-found response, and when the
  router raises \<open>e\<close> it returns the response with \<open>success = False\<close> and \<open>error = str(e)\<close>.
  So a request that fails yields its own error result and the others are processed.
\<close>

theorem batch_call_isolates_failures:
  assumes "parallel request \<longrightarrow> {..<length (requests request)} \<subseteq> set order"
  shows "(\<exists>rs reg' sent. batch_call reg request ws order = Some (rs, reg', sent)
          \<and> length rs = length (requests request)
          \<and> (\<forall>i<length (requests request).
                rs ! i = fst (api_call_tool
                  (if parallel request then reg
                   else fst (snd (batch_sequential reg (take i (requests request)) ws 0)))
                  (requests request ! i) (ws i))))
       \<and> (resolve_server reg0 r = None \<longrightarrow>
            fst (api_call_tool reg0 r w)
            = not_found_response (or_default (req_trace_id r) (uuid w)) r)
       \<and> (resolve_server reg0 r = Some sn \<and>
          fst (call_tool reg0 sn (req_tool r) (req_arguments r) (req_session_id r)
                 (Some (or_default (req_trace_id r) (uuid w))) w) = Inl e \<longrightarrow>
            fst (api_call_tool reg0 r w)
            = \<lparr> resp_id = or_default (req_trace_id r) (uuid w), success = False, result = None,
                error = Some (str_exn (render w) e), resp_server = None,
                execution_time_ms = Some (elapsed w) \<rparr>)"
proof (intro conjI impI)
  show "\<exists>rs reg' sent. batch_call reg request ws order = Some (rs, reg', sent)
          \<and> length rs = length (requests request)
          \<and> (\<forall>i<length (requests request).
                rs ! i = fst (api_call_tool
                  (if parallel request then reg
                   else fst (snd (batch_sequential reg (take i (requests request)) ws 0)))
                  (requests request ! i) (ws i)))"
  proof (cases "parallel request")
    case True
    with assms have "{..<length (requests request)} \<subseteq> set order"
      by simp
    from batch_call_parallel [OF True this, of reg ws] True show ?thesis
      by (simp add: fst_api_call_tool)
  next
    case False
    obtain rs reg' sent where b: "batch_sequential reg (requests request) ws 0 = (rs, reg', sent)"
      by (cases "batch_sequential reg (requests request) ws 0")
    from b have "length rs = length (requests request)"
      using length_batch_sequential [of reg "requests request" ws 0] by simp
    moreover have "rs ! i = fst (api_call_tool
        (fst (snd (batch_sequential reg (take i (requests request)) ws 0)))
        (requests request ! i) (ws i))" if "i < length (requests request)" for i
      using nth_batch_sequential [OF that, of reg ws 0] b by simp
    ultimately show ?thesis
      using False b by (simp add: batch_call_def)
  qed
next
  assume "resolve_server reg0 r = None"
  then show "fst (api_call_tool reg0 r w)
            = not_found_response (or_default (req_trace_id r) (uuid w)) r"
    by (simp add: fst_api_call_tool response_of_call_tool)
next
  assume "resolve_server reg0 r = Some sn \<and>
          fst (call_tool reg0 sn (req_tool r) (req_arguments r) (req_session_id r)
                 (Some (or_default (req_trace_id r) (uuid w))) w) = Inl e"
  then show "fst (api_call_tool reg0 r w)
            = \<lparr> resp_id = or_default (req_trace_id r) (uuid w), success = False, result = None,
                error = Some (str_exn (render w) e), resp_server = None,
                execution_time_ms = Some (elapsed w) \<rparr>"
    by (simp add: fst_api_call_tool response_of_call_tool tool_response_def)
qed


lemmas eval_defs = api_call_tool_def api_call_tool_begin_def api_call_tool_resume_def
  resolve_server_def call_tool_begin_def call_tool_finish_def call_tool_try_def
  raise_for_status_def unwrap_envelope_def tool_response_def find_tool_server_def
  answer_def ok_reply_def two_servers_def chat_v1_def mail_v1_def str_exn_def
  call_chat_def call_files_def call_post_def Let_def

lemma eval_call_chat:
  "success (fst (api_call_tool two_servers call_chat (answer ok_reply))) = True"
  "error (fst (api_call_tool two_servers call_chat (answer ok_reply))) = None"
  "fst (snd (api_call_tool two_servers call_chat (answer ok_reply))) = two_servers"
  by (simp_all add: eval_defs)

lemma eval_call_files:
  "success (fst (api_call_tool two_servers call_files (answer ok_reply))) = False"
  "error (fst (api_call_tool two_servers call_files (answer ok_reply)))
     = Some ''Server not found: files''"
  "fst (snd (api_call_tool two_servers call_files (answer ok_reply))) = two_servers"
  by (simp_all add: eval_defs)

lemma eval_call_post:
  "success (fst (api_call_tool two_servers call_post (answer ok_reply))) = True"
  "error (fst (api_call_tool two_servers call_post (answer ok_reply))) = None"
  by (simp_all add: eval_defs)

lemma three_results:
  assumes "length rs = Suc (Suc (Suc 0))"
    and "\<forall>i<Suc (Suc (Suc 0)).
           rs ! i = fst (api_call_tool two_servers ([call_chat, call_files, call_post] ! i) (answer ok_reply))"
  shows "map success rs = [True, False, True]"
    and "map error rs = [None, Some ''Server not found: files'', None]"
proof -
  from assms(1) obtain a b c where rs: "rs = [a, b, c]"
    by (auto simp: length_Suc_conv)
  from assms(2) rs have "a = fst (api_call_tool two_servers call_chat (answer ok_reply))"
    "b = fst (api_call_tool two_servers call_files (answer ok_reply))"
    "c = fst (api_call_tool two_servers call_post (answer ok_reply))"
    by (auto simp: less_Suc_eq)
  with rs show "map success rs = [True, False, True]"
    and "map error rs = [None, Some ''Server not found: files'', None]"
    by (simp_all add: eval_call_chat eval_call_files eval_call_post)
qed

theorem batch_call_isolates_failures_witness:
  "map_option (\<lambda>(rs, reg', sent). (map success rs, map error rs))
     (batch_call two_servers \<lparr> requests = [call_chat, call_files, call_post], parallel = True \<rparr>
        (\<lambda>i. answer ok_reply) [2, 0, 1])
   = Some ([True, False, True], [None, Some ''Server not found: files'', None])
   \<and> map_option (\<lambda>(rs, reg', sent). (map success rs, map error rs))
     (batch_call two_servers \<lparr> requests = [call_chat, call_files, call_post], parallel = False \<rparr>
        (\<lambda>i. answer ok_reply) [])
   = Some ([True, False, True], [None, Some ''Server not found: files'', None])"
proof -
  let ?par = "\<lparr> requests = [call_chat, call_files, call_post], parallel = True \<rparr>"
  let ?seq = "\<lparr> requests = [call_chat, call_files, call_post], parallel = False \<rparr>"
  have cover: "parallel ?par \<longrightarrow> {..<length (requests ?par)} \<subseteq> set [2, 0, 1]"
    by (auto simp: less_Suc_eq)
  have "\<exists>rs reg' sent. batch_call two_servers ?par (\<lambda>i. answer ok_reply) [2, 0, 1]
      = Some (rs, reg', sent) \<and> length rs = Suc (Suc (Suc 0)) \<and>
      (\<forall>i<Suc (Suc (Suc 0)). rs ! i = fst (api_call_tool two_servers
          ([call_chat, call_files, call_post] ! i) (answer ok_reply)))"
    using batch_call_isolates_failures [OF cover, where reg = two_servers
        and ws = "\<lambda>i. answer ok_reply", THEN conjunct1]
    by simp
  then obtain rs reg' sent where p: "batch_call two_servers ?par (\<lambda>i. answer ok_reply) [2, 0, 1]
      = Some (rs, reg', sent)" "length rs = Suc (Suc (Suc 0))"
    "\<forall>i<Suc (Suc (Suc 0)). rs ! i = fst (api_call_tool two_servers
        ([call_chat, call_files, call_post] ! i) (answer ok_reply))"
    by blast
  have nocover: "parallel ?seq \<longrightarrow> {..<length (requests ?seq)} \<subseteq> set []"
    by simp
  have pre: "fst (snd (batch_sequential two_servers (take i [call_chat, call_files, call_post])
      (\<lambda>i. answer ok_reply) 0)) = two_servers" if "i < Suc (Suc (Suc 0))" for i
  proof -
    from that consider "i = 0" | "i = Suc 0" | "i = Suc (Suc 0)" by linarith
    then show ?thesis
      by cases (simp_all add: batch_sequential_Cons eval_call_chat eval_call_files
          del: batch_sequential.simps(2))
  qed
  have "\<exists>rs reg' sent. batch_call two_servers ?seq (\<lambda>i. answer ok_reply) []
      = Some (rs, reg', sent) \<and> length rs = Suc (Suc (Suc 0)) \<and>
      (\<forall>i<Suc (Suc (Suc 0)). rs ! i = fst (api_call_tool two_servers
          ([call_chat, call_files, call_post] ! i) (answer ok_reply)))"
    using batch_call_isolates_failures [OF nocover, where reg = two_servers
        and ws = "\<lambda>i. answer ok_reply", THEN conjunct1] pre
    by simp
  then obtain rs' reg'' sent' where q: "batch_call two_servers ?seq (\<lambda>i. answer ok_reply) []
      = Some (rs', reg'', sent')" "length rs' = Suc (Suc (Suc 0))"
    "\<forall>i<Suc (Suc (Suc 0)). rs' ! i = fst (api_call_tool two_servers
        ([call_chat, call_files, call_post] ! i) (answer ok_reply))"
    by blast
  from p q show ?thesis
    by (simp add: three_results)
qed


section \<open>The invariant of the table\<close>

text \<open>
  \<open>registry_ok\<close> holds of the empty registry and is kept by every operation that writes
  the table (\<open>register\<close> above), so it holds in every state the gateway reaches.
\<close>

lemma registry_ok_init: "registry_ok MCPRegistry_init"
  by (simp add: registry_ok_def MCPRegistry_init_def)

lemma registry_ok_unregister:
  "registry_ok reg \<Longrightarrow> registry_ok (snd (unregister reg env nm))"
  by (simp add: registry_ok_def servers_unregister distinct_delete keyed_delete)

lemma registry_ok_update_server_status:
  assumes "registry_ok reg"
  shows "registry_ok (snd (update_server_status reg nm st t))"
proof (cases "map_of (servers reg) nm")
  case None
  with assms show ?thesis by (simp add: update_server_status_def)
next
  case (Some s)
  then have "(nm, s) \<in> set (servers reg)"
    by (rule map_of_SomeD)
  with assms have "name (s\<lparr>status := st, last_health_check := t\<rparr>) = nm"
    by (auto simp: registry_ok_def list_all_iff)
  with assms Some show ?thesis
    by (simp add: update_server_status_def registry_ok_def distinct_update keyed_update)
qed

lemma registry_ok_call_tool:
  assumes "registry_ok reg"
  shows "registry_ok (fst (snd (call_tool reg sn tool_nm args sid tid w)))"
proof -
  have "registry_ok (call_tool_except reg sn e t)" for e t
    using assms by (cases e) (simp_all add: call_tool_except_def registry_ok_update_server_status)
  with assms show ?thesis
    by (simp add: call_tool_def call_tool_finish_def split: sum.splits prod.splits)
qed

lemma registry_ok_check_server_health:
  "registry_ok reg \<Longrightarrow> registry_ok (fst (snd (check_server_health reg sn w)))"
  by (simp add: check_server_health_def Let_def registry_ok_update_server_status
      split: option.splits sum.splits exn.splits)


end
